theory Spec2Isabelle
  imports Complex_Main "HOL-Library.Sublist"
begin

section \<open>Strings of the mask-index expression\<close>

text \<open>
  The mask-index expression is free text typed by the user.  The source splits it on
  characters outside Latin-1 (the full-width comma U+FF0C, the enumeration comma U+3001,
  the dashes U+2014 and U+2013), so the text is modelled as the source's string type has
  it: a sequence of UTF-16 code units, each a natural number.  All other strings of the
  program (colours, font names, URLs) are ASCII and are modelled as \<open>string\<close>.
\<close>

type_synonym jsstring = "nat list"

definition str :: "string \<Rightarrow> jsstring" where
  "str s = map of_char s"

text \<open>
  The class \<open>\s\<close> of a JavaScript regular expression, which is also the set of code units
  that \<open>String.prototype.trim\<close> and \<open>parseInt\<close> strip: TAB, LF, VT, FF, CR, SP, NBSP,
  U+1680, U+2000..U+200A, U+2028, U+2029, U+202F, U+205F, U+3000 and U+FEFF.
\<close>

definition isWhiteSpace :: "nat \<Rightarrow> bool" where
  "isWhiteSpace c =
     (c = 9 \<or> c = 10 \<or> c = 11 \<or> c = 12 \<or> c = 13 \<or> c = 32 \<or> c = 160 \<or> c = 5760
      \<or> (8192 \<le> c \<and> c \<le> 8202) \<or> c = 8232 \<or> c = 8233 \<or> c = 8239 \<or> c = 8287
      \<or> c = 12288 \<or> c = 65279)"

text \<open>The separator class \<open>[,\<dots>\s]\<close> of \<open>parseMaskIndices\<close>: comma, U+FF0C, U+3001, white space.\<close>

definition isSeparator :: "nat \<Rightarrow> bool" where
  "isSeparator c = (c = 44 \<or> c = 65292 \<or> c = 12289 \<or> isWhiteSpace c)"

text \<open>The class \<open>[~\<dots>]\<close> replaced by a hyphen: tilde, em-dash U+2014, en-dash U+2013.\<close>

definition isDashLike :: "nat \<Rightarrow> bool" where
  "isDashLike c = (c = 126 \<or> c = 8212 \<or> c = 8211)"

definition hyphen :: nat where
  "hyphen = 45"

text \<open>
  \<open>input.split(/[\<dots>]+/)\<close>: the pieces between maximal runs of separator code units.  A
  leading or trailing run leaves an empty piece, and the empty input gives one empty
  piece, as \<open>String.prototype.split\<close> does.  The flag tells whether the previous code unit
  belonged to the run being skipped.
\<close>

fun splitRuns :: "(nat \<Rightarrow> bool) \<Rightarrow> jsstring \<Rightarrow> bool \<Rightarrow> jsstring \<Rightarrow> jsstring list" where
  "splitRuns sep acc inRun [] = [acc]"
| "splitRuns sep acc inRun (c # cs) =
     (if sep c then (if inRun then splitRuns sep acc True cs
                     else acc # splitRuns sep [] True cs)
      else splitRuns sep (acc @ [c]) False cs)"

definition splitSeparators :: "jsstring \<Rightarrow> jsstring list" where
  "splitSeparators input = splitRuns isSeparator [] False input"

text \<open>\<open>s.split('-')\<close>: every occurrence of the code unit separates two pieces.\<close>

fun splitOn :: "nat \<Rightarrow> jsstring \<Rightarrow> jsstring \<Rightarrow> jsstring list" where
  "splitOn d acc [] = [acc]"
| "splitOn d acc (c # cs) =
     (if c = d then acc # splitOn d [] cs else splitOn d (acc @ [c]) cs)"

definition trim :: "jsstring \<Rightarrow> jsstring" where
  "trim s = rev (dropWhile isWhiteSpace (rev (dropWhile isWhiteSpace s)))"

definition replaceDashes :: "jsstring \<Rightarrow> jsstring" where
  "replaceDashes s = map (\<lambda>c. if isDashLike c then hyphen else c) s"

definition includesUnit :: "jsstring \<Rightarrow> nat \<Rightarrow> bool" where
  "includesUnit s c = (c \<in> set s)"

subsection \<open>parseInt\<close>

text \<open>
  \<open>parseInt(s)\<close> without a radix, after ECMA-262: leading white space is dropped, one
  sign is read, a prefix \<open>0x\<close> or \<open>0X\<close> selects radix 16, and the longest run of digits of
  the radix is the value; no digit at all gives NaN, here \<open>None\<close>.  Whatever follows the
  digits is ignored.  The value is an exact integer: the source's numbers are doubles,
  which agree with it up to \<open>2 ^ 53\<close>.
\<close>

definition isDecDigit :: "nat \<Rightarrow> bool" where
  "isDecDigit c = (48 \<le> c \<and> c \<le> 57)"

definition isHexDigit :: "nat \<Rightarrow> bool" where
  "isHexDigit c = (isDecDigit c \<or> (97 \<le> c \<and> c \<le> 102) \<or> (65 \<le> c \<and> c \<le> 70))"

definition digitValue :: "nat \<Rightarrow> nat" where
  "digitValue c = (if isDecDigit c then c - 48 else if 97 \<le> c then c - 87 else c - 55)"

definition digitsValue :: "nat \<Rightarrow> jsstring \<Rightarrow> nat" where
  "digitsValue radix ds = foldl (\<lambda>v c. v * radix + digitValue c) 0 ds"

definition parseDigits :: "int \<Rightarrow> jsstring \<Rightarrow> int option" where
  "parseDigits sign s =
     (let hex = (case s of a # b # _ \<Rightarrow> a = 48 \<and> (b = 120 \<or> b = 88) | _ \<Rightarrow> False);
          body = (if hex then drop 2 s else s);
          ds = takeWhile (if hex then isHexDigit else isDecDigit) body
      in if ds = [] then None
         else Some (sign * int (digitsValue (if hex then 16 else 10) ds)))"

definition parseInt :: "jsstring \<Rightarrow> int option" where
  "parseInt s =
     (case dropWhile isWhiteSpace s of
        [] \<Rightarrow> None
      | c # cs \<Rightarrow>
          if c = 45 then parseDigits (- 1) cs
          else if c = 43 then parseDigits 1 cs
          else parseDigits 1 (c # cs))"

subsection \<open>parseMaskIndices\<close>

text \<open>
  The body of the \<open>forEach\<close> callback: it takes one piece and the array \<open>maskTargets\<close>
  built so far and returns the array after the pushes.  The counting loop
  \<open>for (k = min; k <= max; k++)\<close> is the list \<open>[min..max]\<close>.
\<close>

definition parsePart :: "jsstring \<Rightarrow> int list \<Rightarrow> int list" where
  "parsePart part0 maskTargets =
     (let part = trim part0 in
      if part = [] then maskTargets
      else
        let standardPart = replaceDashes part in
        if includesUnit standardPart hyphen then
          (let rangeParts = splitOn hyphen [] standardPart in
           if length rangeParts = 2 then
             (case (parseInt (rangeParts ! 0), parseInt (rangeParts ! 1)) of
                (Some s, Some e) \<Rightarrow> maskTargets @ [min s e .. max s e]
              | _ \<Rightarrow> maskTargets)
           else maskTargets)
        else
          (case parseInt standardPart of
             Some num \<Rightarrow> maskTargets @ [num]
           | None \<Rightarrow> maskTargets))"

definition parseMaskIndices :: "jsstring \<Rightarrow> int list" where
  "parseMaskIndices input = foldl (\<lambda>maskTargets part. parsePart part maskTargets) [] (splitSeparators input)"


section \<open>Numbers and settings\<close>

text \<open>
  The source's numbers are IEEE doubles.  The model computes with exact integers and
  reals and represents the values that are not numbers only where the code tests for
  them: a setting read through \<open>x || d\<close> is a \<open>jsnum\<close>, whose falsy values (missing, NaN
  and zero) are replaced by the default.  Rounding, overflow to Infinity and a division
  by zero are outside the model; each theorem that divides says so in its hypotheses.
  The columns, the rows per group, the start number and the quality are integers, as the
  settings form stores them (it passes every input through \<open>parseInt\<close>); a fractional
  value of one of them is outside the model.
\<close>

datatype 'a jsnum = Undefined | NaN | Num 'a

definition orElse :: "'a::zero jsnum \<Rightarrow> 'a \<Rightarrow> 'a" where
  "orElse v d = (case v of Num r \<Rightarrow> if r = 0 then d else r | _ \<Rightarrow> d)"

record ImageItem =
  id :: string
  url :: string
  name :: string
  size :: nat

datatype MaskMode = Line | Image

datatype LineStyle = Cross | Slash

record Settings =
  aspectRatio :: string
  customW :: "real jsnum"
  customH :: "real jsnum"
  gap :: real
  showNum :: bool
  startNumber :: int
  fontSize :: real
  fontWeight :: string
  fontColor :: string
  enableStroke :: bool
  fontStrokeColor :: string
  fontShadowColor :: string
  enableShadow :: bool
  fontFamily :: string
  fontPos :: string
  cols :: "int jsnum"
  groupRows :: "int jsnum"
  overlayImgUrl :: "string option"
  overlayMode :: string
  overlayOpacity :: real
  qualityVal :: int
  maskMode :: MaskMode
  maskIndices :: jsstring
  maskColor :: string
  maskWidth :: real
  lineStyle :: LineStyle
  stickerImgUrl :: "string option"
  stickerSize :: real
  stickerX :: real
  stickerY :: real

text \<open>
  \<open>getRatio\<close>.  \<open>parseFloat\<close> is the host's function and is a parameter of the model.
  In the custom branch both operands are numbers and the divisor is not zero.
\<close>

definition getRatio :: "(string \<Rightarrow> real jsnum) \<Rightarrow> Settings \<Rightarrow> real jsnum" where
  "getRatio parseFloat settings =
     (if aspectRatio settings \<noteq> ''custom'' then parseFloat (aspectRatio settings)
      else
        let w = orElse (customW settings) 1000;
            h = orElse (customH settings) 1500
        in Num (w / h))"

section \<open>The canvas, the images and the environment\<close>

text \<open>
  The 2D context is modelled by the calls made on it.  A canvas holds its two dimensions
  and the calls drawn since it was last resized; assigning a dimension clears it, as the
  host does.  Text is either a literal or a number converted with \<open>toString\<close>; a font is
  kept as its three parts instead of the concatenated string.
\<close>

datatype label = Glyph string | Number int

datatype op =
    FillStyle string
  | FillRect real real real real
  | ClearRect real real real real
  | Font string real string
  | TextAlign string
  | FillText label real real
  | StrokeText label real real
  | Save
  | Restore
  | BeginPath
  | Rect real real real real
  | Clip
  | DrawImage string real real real real
  | LineWidth real
  | StrokeStyle string
  | LineJoin string
  | LineCap string
  | MiterLimit real
  | ShadowColor string
  | ShadowBlur real
  | ShadowOffsetX real
  | ShadowOffsetY real
  | MoveTo real real
  | LineTo real real
  | Stroke
  | GlobalAlpha real
  | GlobalCompositeOperation string

record canvas =
  cwidth :: real
  cheight :: real
  drawn :: "op list"

text \<open>
  What an image element reports once its load has settled.  \<open>drawRaises\<close> says whether
  \<open>drawImage\<close> on it raises, which the source catches.
\<close>

record imgprops =
  complete :: bool
  naturalWidth :: nat
  naturalHeight :: nat
  width :: nat
  height :: nat
  drawRaises :: bool

datatype loadEvent = OnLoad imgprops | OnError imgprops

datatype encodeResult = Encoded | EncodeNull | EncodeRaises string

text \<open>
  The environment is everything the run reads from outside: the successive readings of
  the cancellation flag, the outcome of each attempt to load a cell image (numbered in
  the order the attempts are started), what the sticker and the overlay report after
  loading, the outcome of encoding each batch, \<open>parseFloat\<close>, and whether the canvas
  element is mounted.
\<close>

record env =
  cancelReading :: "nat \<Rightarrow> bool"
  loadOutcome :: "nat \<Rightarrow> loadEvent"
  stickerLoaded :: "string \<Rightarrow> imgprops"
  overlayLoaded :: "string \<Rightarrow> imgprops"
  encodeOutcome :: "nat \<Rightarrow> encodeResult"
  parseFloat :: "string \<Rightarrow> real jsnum"
  canvasMounted :: bool

text \<open>
  Effects other than drawing: a timer (\<open>setTimeout\<close> with its delay in milliseconds), an
  assignment to the \<open>src\<close> of the cell's image, the release of that image, and a call of
  \<open>canvas.toBlob\<close> (with the index of the batch).
\<close>

datatype effect = Wait nat | AssignSrc string | Release | ToBlob nat

record state =
  sheet :: canvas
  polls :: nat
  attempts :: nat
  trace :: "effect list"

definition poll :: "env \<Rightarrow> state \<Rightarrow> bool \<times> state" where
  "poll e st = (cancelReading e (polls st), st\<lparr>polls := polls st + 1\<rparr>)"

definition wait :: "nat \<Rightarrow> state \<Rightarrow> state" where
  "wait ms st = st\<lparr>trace := trace st @ [Wait ms]\<rparr>"

definition draw :: "op list \<Rightarrow> state \<Rightarrow> state" where
  "draw ops st = st\<lparr>sheet := (sheet st)\<lparr>drawn := drawn (sheet st) @ ops\<rparr>\<rparr>"

definition setWidth :: "real \<Rightarrow> state \<Rightarrow> state" where
  "setWidth v st = st\<lparr>sheet := (sheet st)\<lparr>cwidth := v, drawn := []\<rparr>\<rparr>"

definition setHeight :: "real \<Rightarrow> state \<Rightarrow> state" where
  "setHeight v st = st\<lparr>sheet := (sheet st)\<lparr>cheight := v, drawn := []\<rparr>\<rparr>"


section \<open>drawAsync\<close>

subsection \<open>Acquiring one image\<close>

text \<open>
  \<open>loadImg(src, retries)\<close>.  Each call installs fresh handlers and assigns \<open>src\<close>; the
  environment then fires either \<open>onload\<close> or \<open>onerror\<close>.  On an error with retries left,
  a 200 ms timer runs, its callback assigns \<open>src\<close> again and calls \<open>loadImg\<close> with one
  retry less (which replaces the handlers and assigns \<open>src\<close> once more, so only this last
  assignment is answered).  With no retry left the element is marked \<open>isBroken\<close>.  The
  result is that mark and what the element reports.  The test \<open>retries > 0\<close> is the
  pattern of the second equation.
\<close>

definition assignSrc :: "string \<Rightarrow> state \<Rightarrow> state" where
  "assignSrc src st = st\<lparr>attempts := attempts st + 1, trace := trace st @ [AssignSrc src]\<rparr>"

definition retryLater :: "string \<Rightarrow> state \<Rightarrow> state" where
  "retryLater src st = st\<lparr>trace := trace st @ [Wait 200, AssignSrc src]\<rparr>"

fun loadImg :: "env \<Rightarrow> string \<Rightarrow> nat \<Rightarrow> state \<Rightarrow> (bool \<times> imgprops) \<times> state" where
  "loadImg e src 0 st =
     (case loadOutcome e (attempts st) of
        OnLoad p \<Rightarrow> ((False, p), assignSrc src st)
      | OnError p \<Rightarrow> ((True, p), assignSrc src st))"
| "loadImg e src (Suc retries) st =
     (case loadOutcome e (attempts st) of
        OnLoad p \<Rightarrow> ((False, p), assignSrc src st)
      | OnError p \<Rightarrow> loadImg e src retries (retryLater src (assignSrc src st)))"

subsection \<open>Drawing one cell\<close>

text \<open>
  The \<open>try\<close> block of a cell: the placeholder when the strict check fails, otherwise the
  clipped cover-fit draw.  When \<open>drawImage\<close> raises, the \<open>catch\<close> arm fills the cell; the
  \<open>restore\<close> of the \<open>try\<close> block is then not reached.
\<close>

definition placeholderOps :: "real \<Rightarrow> real \<Rightarrow> real \<Rightarrow> real \<Rightarrow> op list" where
  "placeholderOps x y w h =
     [FillStyle ''#f0f0f0'', FillRect x y w h, FillStyle ''#ccc'',
      Font ''bold'' (w / 10) ''sans-serif'', TextAlign ''center'',
      FillText (Glyph ''!'') (x + w / 2) (y + h / 2)]"

definition coverOps :: "string \<Rightarrow> imgprops \<Rightarrow> real \<Rightarrow> real \<Rightarrow> real \<Rightarrow> real \<Rightarrow> op list" where
  "coverOps src img x y w h =
     (let iRatio = real (width img) / real (height img);
          cRatio = w / h
      in if iRatio > cRatio
         then [DrawImage src (x - (h * iRatio - w) / 2) y (h * iRatio) h]
         else [DrawImage src x (y - (w / iRatio - h) / 2) w (w / iRatio)])"

definition cellImageOps ::
  "string \<Rightarrow> bool \<Rightarrow> imgprops \<Rightarrow> real \<Rightarrow> real \<Rightarrow> real \<Rightarrow> real \<Rightarrow> op list" where
  "cellImageOps src isBroken img x y w h =
     (if isBroken \<or> naturalWidth img = 0 \<or> naturalHeight img = 0 \<or> \<not> complete img
      then placeholderOps x y w h
      else [Save, BeginPath, Rect x y w h, Clip] @
           (if drawRaises img then [FillStyle ''#eee'', FillRect x y w h]
            else coverOps src img x y w h @ [Restore]))"

text \<open>The sequence number of a cell, drawn when numbering is on and not force-hidden.\<close>

definition numberOps :: "Settings \<Rightarrow> bool \<Rightarrow> int \<Rightarrow> real \<Rightarrow> real \<Rightarrow> real \<Rightarrow> real \<Rightarrow> op list" where
  "numberOps settings forceHideNums currentNum x y w h =
     (if showNum settings \<and> \<not> forceHideNums then
        (let fWeight = (if fontWeight settings = [] then ''bold'' else fontWeight settings);
             fs = fontSize settings;
             pos = fontPos settings;
             ty = (if pos = ''center'' then y + h / 2 + fs / 3
                   else if sublist ''top'' pos then y + fs + 20
                   else y + h - fs / 2);
             tx = (if sublist ''left'' pos then x + 20
                   else if sublist ''right'' pos then x + w - 20
                   else x + w / 2);
             align = (if sublist ''left'' pos then ''left''
                      else if sublist ''right'' pos then ''right''
                      else ''center'')
         in [Save, Font fWeight fs (fontFamily settings), TextAlign align] @
            (if enableStroke settings
             then [LineWidth (fs / 12), StrokeStyle (fontStrokeColor settings),
                   LineJoin ''round'', MiterLimit 2, StrokeText (Number currentNum) tx ty]
             else []) @
            (if enableShadow settings
             then [ShadowColor (fontShadowColor settings), ShadowBlur (fs / 10),
                   ShadowOffsetX 0, ShadowOffsetY 0]
             else [ShadowColor ''transparent'', ShadowBlur 0]) @
            [FillStyle (fontColor settings), FillText (Number currentNum) tx ty, Restore])
      else [])"

text \<open>
  The redaction of a cell.  \<open>stickerImgObj\<close> is \<open>None\<close> when no sticker URL is set, and
  otherwise the URL with what the sticker element reports after its load settled.
\<close>

definition lineOps :: "Settings \<Rightarrow> real \<Rightarrow> real \<Rightarrow> real \<Rightarrow> real \<Rightarrow> op list" where
  "lineOps settings x y w h =
     [BeginPath, StrokeStyle (maskColor settings),
      LineWidth (maskWidth settings * (w / 500) * 5), LineCap ''round''] @
     (if lineStyle settings = Cross
      then [MoveTo (x + w * 0.2) (y + h * 0.2), LineTo (x + w * 0.8) (y + h * 0.8),
            MoveTo (x + w * 0.8) (y + h * 0.2), LineTo (x + w * 0.2) (y + h * 0.8)]
      else [MoveTo (x + w * 0.2) (y + h * 0.8), LineTo (x + w * 0.8) (y + h * 0.2)]) @
     [Stroke]"

definition stickerOps :: "Settings \<Rightarrow> string \<Rightarrow> imgprops \<Rightarrow> real \<Rightarrow> real \<Rightarrow> real \<Rightarrow> real \<Rightarrow> op list" where
  "stickerOps settings u sticker x y w h =
     (let sizePct = stickerSize settings / 100;
          xPct = stickerX settings / 100;
          yPct = stickerY settings / 100;
          sw = w * sizePct;
          sh = sw * (real (height sticker) / real (width sticker))
      in [DrawImage u (x + (w * xPct) - sw / 2) (y + (h * yPct) - sh / 2) sw sh])"

definition maskOps ::
  "Settings \<Rightarrow> bool \<Rightarrow> int list \<Rightarrow> (string \<times> imgprops) option \<Rightarrow> int \<Rightarrow>
   real \<Rightarrow> real \<Rightarrow> real \<Rightarrow> real \<Rightarrow> op list" where
  "maskOps settings applyMask maskIdx stickerImgObj currentNum x y w h =
     (if applyMask \<and> currentNum \<in> set maskIdx then
        (case stickerImgObj of
           Some (u, sticker) \<Rightarrow>
             if complete sticker \<and> naturalWidth sticker > 0
             then stickerOps settings u sticker x y w h
             else []
         | None \<Rightarrow> lineOps settings x y w h)
      else [])"

text \<open>
  \<open>new Image()\<close> for a URL that is set and not empty, after its load has settled
  (without retry): the sticker and the overlay.
\<close>

definition loadOptional :: "(string \<Rightarrow> imgprops) \<Rightarrow> string option \<Rightarrow> (string \<times> imgprops) option" where
  "loadOptional loaded u =
     (case u of None \<Rightarrow> None | Some s \<Rightarrow> if s = [] then None else Some (s, loaded s))"

definition currentNumOf :: "int \<Rightarrow> int \<Rightarrow> nat \<Rightarrow> int" where
  "currentNumOf startNum globalOffset i = startNum + globalOffset + int i"


subsection \<open>The loop over the cells and the overlay\<close>

text \<open>
  The corner of cell \<open>i\<close>: \<open>x = c * (w + gap)\<close> with \<open>c = i % cols\<close>, and
  \<open>y = r * (h + gap)\<close> with \<open>r = Math.floor(i / cols)\<close>.  The floor of the quotient is
  the integer quotient, and \<open>i % cols\<close> takes the sign of \<open>i\<close>, which is not negative.
  No caller passes \<open>cols = 0\<close>.
\<close>

definition cellX :: "int \<Rightarrow> real \<Rightarrow> real \<Rightarrow> nat \<Rightarrow> real" where
  "cellX ncols w gp i = real_of_int (int i mod \<bar>ncols\<bar>) * (w + gp)"

definition cellY :: "int \<Rightarrow> real \<Rightarrow> real \<Rightarrow> nat \<Rightarrow> real" where
  "cellY ncols h gp i = real_of_int (int i div ncols) * (h + gp)"

text \<open>Everything drawn for cell \<open>i\<close> once its image is acquired.\<close>

definition cellOps ::
  "Settings \<Rightarrow> int \<Rightarrow> real \<Rightarrow> real \<Rightarrow> real \<Rightarrow> int \<Rightarrow> int \<Rightarrow> int list \<Rightarrow> bool \<Rightarrow> bool \<Rightarrow>
   (string \<times> imgprops) option \<Rightarrow> nat \<Rightarrow> string \<Rightarrow> bool \<times> imgprops \<Rightarrow> op list" where
  "cellOps settings ncols w h gp globalOffset startNum maskIdx applyMask forceHideNums
     stickerImgObj i src img =
     (let x = cellX ncols w gp i;
          y = cellY ncols h gp i;
          currentNum = currentNumOf startNum globalOffset i
      in cellImageOps src (fst img) (snd img) x y w h @
         numberOps settings forceHideNums currentNum x y w h @
         maskOps settings applyMask maskIdx stickerImgObj currentNum x y w h)"

definition release :: "state \<Rightarrow> state" where
  "release st = st\<lparr>trace := trace st @ [Release]\<rparr>"

text \<open>
  The \<open>for\<close> loop of \<open>drawAsync\<close>, from cell \<open>i\<close> on.  It polls before the acquisition and
  right after it, and yields to the host every tenth cell.  The flag of the result tells
  whether the loop ran to its end (\<open>True\<close>) or returned on a cancellation (\<open>False\<close>).
\<close>

definition yieldEveryTenth :: "nat \<Rightarrow> state \<Rightarrow> state" where
  "yieldEveryTenth i st = (if i mod 10 = 0 then wait 0 st else st)"

fun drawCells ::
  "env \<Rightarrow> (nat \<Rightarrow> string \<Rightarrow> bool \<times> imgprops \<Rightarrow> op list) \<Rightarrow> nat \<Rightarrow> string list \<Rightarrow> state \<Rightarrow>
   bool \<times> state" where
  "drawCells e cell i [] st = (True, st)"
| "drawCells e cell i (src # rest) st =
     (case poll e st of
        (True, st1) \<Rightarrow> (False, st1)
      | (False, st1) \<Rightarrow>
          (case loadImg e src 2 (yieldEveryTenth i st1) of
             (img, st3) \<Rightarrow>
               (case poll e st3 of
                  (True, st4) \<Rightarrow> (False, st4)
                | (False, st4) \<Rightarrow>
                    drawCells e cell (Suc i) rest (release (draw (cell i src img) st4)))))"

definition overlayOps :: "Settings \<Rightarrow> (string \<times> imgprops) option \<Rightarrow> real \<Rightarrow> real \<Rightarrow> op list" where
  "overlayOps settings overlayImgObj cw ch =
     (case overlayImgObj of
        Some (u, overlay) \<Rightarrow>
          if complete overlay \<and> naturalWidth overlay > 0
          then [Save, GlobalAlpha (overlayOpacity settings),
                GlobalCompositeOperation (overlayMode settings),
                DrawImage u 0 0 cw ch, Restore]
          else []
      | None \<Rightarrow> [])"

text \<open>
  \<open>drawAsync\<close>.  The source returns nothing; the flag of the result tells whether it ran
  to its end or returned at a poll.
\<close>

definition drawAsync ::
  "env \<Rightarrow> string list \<Rightarrow> int \<Rightarrow> int \<Rightarrow> real \<Rightarrow> real \<Rightarrow> real \<Rightarrow> int \<Rightarrow> int \<Rightarrow> int list \<Rightarrow>
   Settings \<Rightarrow> bool \<Rightarrow> bool \<Rightarrow> state \<Rightarrow> bool \<times> state" where
  "drawAsync e imgs rows ncols w h gp globalOffset startNum maskIdx settings applyMask
     forceHideNums st =
     (case poll e st of
        (True, st1) \<Rightarrow> (False, st1)
      | (False, st1) \<Rightarrow>
          (let cw = real_of_int ncols * w + real_of_int (ncols - 1) * gp;
               ch = real_of_int rows * h + real_of_int (rows - 1) * gp;
               st2 = draw [FillStyle ''#FFFFFF'', FillRect 0 0 cw ch]
                       (setHeight ch (setWidth cw st1));
               stickerImgObj = loadOptional (stickerLoaded e) (stickerImgUrl settings);
               overlayImgObj = loadOptional (overlayLoaded e) (overlayImgUrl settings)
           in case drawCells e
                     (cellOps settings ncols w h gp globalOffset startNum maskIdx applyMask
                        forceHideNums stickerImgObj) 0 imgs st2 of
                (False, st3) \<Rightarrow> (False, st3)
              | (True, st3) \<Rightarrow> (True, draw (overlayOps settings overlayImgObj cw ch) st3)))"

section \<open>runGeneration\<close>

datatype opType = Normal | Apply | Repack

record blob =
  mime :: string
  quality :: "real option"
  content :: canvas

datatype alert = PleaseAddImages | Interrupted string

record app =
  generatedBlobs :: "blob list"
  isLoading :: bool
  alerts :: "alert list"

text \<open>\<open>Array.prototype.slice(a, b)\<close>: a negative index counts from the end.\<close>

definition slice :: "'a list \<Rightarrow> int \<Rightarrow> int \<Rightarrow> 'a list" where
  "slice xs a b =
     (let n = int (length xs);
          from = (if a < 0 then max (n + a) 0 else min a n);
          to = (if b < 0 then max (n + b) 0 else min b n)
      in take (nat to - nat from) (drop (nat from) xs))"

text \<open>The repack pre-pass: \<open>targets.filter((_, i) => !maskIndicesArr.includes(startNum + i))\<close>.\<close>

definition targetsOf :: "opType \<Rightarrow> int \<Rightarrow> int list \<Rightarrow> ImageItem list \<Rightarrow> string list" where
  "targetsOf opType startNum maskIndicesArr images =
     (let targets = map url images in
      if opType = Repack
      then map fst (filter (\<lambda>(t, i). startNum + int i \<notin> set maskIndicesArr)
                      (zip targets [0..<length targets]))
      else targets)"

definition colsOf :: "Settings \<Rightarrow> int" where
  "colsOf settings = orElse (cols settings) 3"

definition rowsOf :: "Settings \<Rightarrow> int" where
  "rowsOf settings = orElse (groupRows settings) 50"

definition batchSizeOf :: "Settings \<Rightarrow> int" where
  "batchSizeOf settings = colsOf settings * rowsOf settings"

definition totalBatchesOf :: "Settings \<Rightarrow> string list \<Rightarrow> int" where
  "totalBatchesOf settings targets =
     \<lceil>real (length targets) / real_of_int (batchSizeOf settings)\<rceil>"

definition qValOf :: "Settings \<Rightarrow> int" where
  "qValOf settings =
     (let qVal = qualityVal settings;
          qVal = (if qVal < 10 then 10 else qVal);
          qVal = (if qVal > 100 then 100 else qVal)
      in qVal)"

definition isPngOf :: "Settings \<Rightarrow> bool" where
  "isPngOf settings = (qValOf settings = 100)"

definition mimeTypeOf :: "Settings \<Rightarrow> string" where
  "mimeTypeOf settings = (if isPngOf settings then ''image/png'' else ''image/jpeg'')"

text \<open>The third argument of \<open>toBlob\<close>: \<open>undefined\<close> for PNG, \<open>qVal / 100\<close> otherwise.\<close>

definition encoderQualityOf :: "Settings \<Rightarrow> real option" where
  "encoderQualityOf settings =
     (if isPngOf settings then None else Some (real_of_int (qValOf settings) / 100))"

definition currentImgsOf :: "Settings \<Rightarrow> string list \<Rightarrow> nat \<Rightarrow> string list" where
  "currentImgsOf settings targets b =
     slice targets (int b * batchSizeOf settings)
       (min ((int b + 1) * batchSizeOf settings) (int (length targets)))"

definition sheetRowsOf :: "Settings \<Rightarrow> string list \<Rightarrow> int" where
  "sheetRowsOf settings currentImgs =
     \<lceil>real (length currentImgs) / real_of_int (colsOf settings)\<rceil>"

definition cellWOf :: "Settings \<Rightarrow> real" where
  "cellWOf settings =
     (if real_of_int (colsOf settings) * 1500 > 8192
      then real_of_int \<lfloor>(8192 - gap settings * real_of_int (colsOf settings))
                          / real_of_int (colsOf settings)\<rfloor>
      else 1500)"

text \<open>
  \<open>Math.floor(cellW / ratio)\<close>, with the exact quotient where the source floors a
  rounded one.  A ratio that is zero or not a number makes the source's cell height
  Infinity or NaN, which it passes on; the model writes 0 for it.  No theorem below
  depends on the value of the cell height: it appears in them as this term only.
\<close>

definition cellHOf :: "real \<Rightarrow> real jsnum \<Rightarrow> real" where
  "cellHOf cellW ratio =
     (case ratio of Num r \<Rightarrow> if r = 0 then 0 else real_of_int \<lfloor>cellW / r\<rfloor> | _ \<Rightarrow> 0)"

definition applyMaskOf :: "Settings \<Rightarrow> opType \<Rightarrow> bool" where
  "applyMaskOf settings opType =
     (opType = Apply \<or> (opType = Normal \<and> length (maskIndices settings) > 0))"

definition drawSettingsOf :: "Settings \<Rightarrow> Settings" where
  "drawSettingsOf settings =
     settings\<lparr>stickerImgUrl := (if maskMode settings = Image then stickerImgUrl settings else None)\<rparr>"

text \<open>The call of \<open>drawAsync\<close> for batch \<open>b\<close>.\<close>

definition drawBatch ::
  "env \<Rightarrow> Settings \<Rightarrow> opType \<Rightarrow> string list \<Rightarrow> int list \<Rightarrow> nat \<Rightarrow> state \<Rightarrow> bool \<times> state" where
  "drawBatch e settings opType targets maskIndicesArr b st =
     (let currentImgs = currentImgsOf settings targets b;
          ratio = getRatio (parseFloat e) settings;
          cellW = cellWOf settings;
          cellH = cellHOf cellW ratio
      in drawAsync e currentImgs (sheetRowsOf settings currentImgs) (colsOf settings)
           cellW cellH (gap settings) (int b * batchSizeOf settings) (startNumber settings)
           maskIndicesArr (drawSettingsOf settings) (applyMaskOf settings opType) False st)"


text \<open>
  How the loop over the batches ended: it ran through every batch, it left with
  \<open>break\<close> in the iteration of the given batch, or an exception was raised inside the
  \<open>try\<close> block.  \<open>NotRun\<close> is the result of the two early returns of \<open>runGeneration\<close>.
\<close>

datatype exit = Completed | Break nat | Raised string | NotRun

definition blobOf :: "Settings \<Rightarrow> state \<Rightarrow> blob" where
  "blobOf settings st =
     \<lparr>mime = mimeTypeOf settings, quality = encoderQualityOf settings, content = sheet st\<rparr>"

text \<open>\<open>ctx.clearRect(0, 0, canvas.width, canvas.height); canvas.width = 1; canvas.height = 1\<close>.\<close>

definition clearCanvas :: "state \<Rightarrow> state" where
  "clearCanvas st =
     setHeight 1 (setWidth 1
       (draw [ClearRect 0 0 (cwidth (sheet st)) (cheight (sheet st))] st))"

definition toBlobCalled :: "nat \<Rightarrow> state \<Rightarrow> state" where
  "toBlobCalled b st = st\<lparr>trace := trace st @ [ToBlob b]\<rparr>"

text \<open>
  The \<open>for\<close> loop over the batches, from the batches still to do and the array
  \<open>tempBlobs\<close>.  \<open>toBlob\<close> answers with a blob, with \<open>null\<close> (then nothing is pushed and
  the loop goes on), or raises (then the \<open>catch\<close> of \<open>runGeneration\<close> takes over).
\<close>

fun runBatches ::
  "env \<Rightarrow> Settings \<Rightarrow> opType \<Rightarrow> string list \<Rightarrow> int list \<Rightarrow> nat list \<Rightarrow> blob list \<Rightarrow> state \<Rightarrow>
   exit \<times> blob list \<times> state" where
  "runBatches e settings opType targets maskIndicesArr [] tempBlobs st =
     (Completed, tempBlobs, st)"
| "runBatches e settings opType targets maskIndicesArr (b # bs) tempBlobs st =
     (case poll e st of
        (True, st1) \<Rightarrow> (Break b, tempBlobs, st1)
      | (False, st1) \<Rightarrow>
          (case drawBatch e settings opType targets maskIndicesArr b (wait 200 st1) of
             (done, st3) \<Rightarrow>
               (case poll e st3 of
                  (True, st4) \<Rightarrow> (Break b, tempBlobs, st4)
                | (False, st4) \<Rightarrow>
                    (case encodeOutcome e b of
                       EncodeRaises msg \<Rightarrow> (Raised msg, tempBlobs, toBlobCalled b st4)
                     | EncodeNull \<Rightarrow>
                         runBatches e settings opType targets maskIndicesArr bs tempBlobs
                           (clearCanvas (toBlobCalled b st4))
                     | Encoded \<Rightarrow>
                         runBatches e settings opType targets maskIndicesArr bs
                           (tempBlobs @ [blobOf settings (toBlobCalled b st4)])
                           (clearCanvas (toBlobCalled b st4))))))"

text \<open>
  The result of a run: the application state it leaves (\<open>generatedBlobs\<close> is what the
  caller sees), how the loop ended, the local array \<open>tempBlobs\<close> at that moment, and the
  state of the canvas, counters and effects.
\<close>

record outcome =
  appAfter :: app
  exitOf :: exit
  collected :: "blob list"
  world :: state

text \<open>
  \<open>runGeneration\<close>.  After the loop the flag is read once more: the blobs are published
  only when it is not set, and an exception is reported only when it is not set.  The
  progress text and the scrolling of the page are left out.
\<close>

definition runGeneration ::
  "env \<Rightarrow> Settings \<Rightarrow> ImageItem list \<Rightarrow> opType \<Rightarrow> app \<Rightarrow> state \<Rightarrow> outcome" where
  "runGeneration e settings images opType a st =
     (if length images = 0
      then \<lparr>appAfter = a\<lparr>alerts := alerts a @ [PleaseAddImages]\<rparr>, exitOf = NotRun,
            collected = [], world = st\<rparr>
      else
        let a1 = a\<lparr>generatedBlobs := [], isLoading := True\<rparr>;
            st1 = wait 50 st;
            startNum = startNumber settings;
            maskIndicesArr = parseMaskIndices (maskIndices settings);
            targets = targetsOf opType startNum maskIndicesArr images;
            totalBatches = totalBatchesOf settings targets
        in if \<not> canvasMounted e
           then \<lparr>appAfter = a1\<lparr>isLoading := False\<rparr>, exitOf = NotRun, collected = [],
                 world = st1\<rparr>
           else
             (case runBatches e settings opType targets maskIndicesArr
                     [0..<nat totalBatches] [] st1 of
                (ex, tempBlobs, st2) \<Rightarrow>
                  (case poll e st2 of
                     (cancelled, st3) \<Rightarrow>
                       \<lparr>appAfter =
                          (case ex of
                             Raised msg \<Rightarrow>
                               if \<not> cancelled then a1\<lparr>alerts := alerts a1 @ [Interrupted msg]\<rparr>
                               else a1
                           | _ \<Rightarrow>
                               if \<not> cancelled then a1\<lparr>generatedBlobs := tempBlobs\<rparr>
                               else a1)\<lparr>isLoading := False\<rparr>,
                        exitOf = ex, collected = tempBlobs, world = st3\<rparr>)))"


text \<open>The constant \<open>DEFAULT_SETTINGS\<close> of the application.\<close>

definition DEFAULT_SETTINGS :: Settings where
  "DEFAULT_SETTINGS =
     \<lparr>aspectRatio = ''0.75'', customW = Num 1000, customH = Num 1500, gap = 0,
      showNum = True, startNumber = 1, fontSize = 350, fontWeight = ''bold'',
      fontColor = ''#FFFFFF'', enableStroke = True, fontStrokeColor = ''#000000'',
      fontShadowColor = ''#000000'', enableShadow = False, fontFamily = ''sans-serif'',
      fontPos = ''bottom-center'', cols = Num 3, groupRows = Num 3, overlayImgUrl = None,
      overlayMode = ''source-over'', overlayOpacity = 1, qualityVal = 50, maskMode = Line,
      maskIndices = [], maskColor = ''#FF3B30'', maskWidth = 10, lineStyle = Cross,
      stickerImgUrl = None, stickerSize = 50, stickerX = 50, stickerY = 50\<rparr>"

text \<open>
  Concrete inputs used to exercise the theorems below: an image of 4 by 3 pixels that
  loaded, an element whose load failed, an environment in which nothing is cancelled and
  every load and every encoding succeeds, and the state before a run.
\<close>

definition loadedImage :: imgprops where
  "loadedImage =
     \<lparr>complete = True, naturalWidth = 4, naturalHeight = 3, width = 4, height = 3,
      drawRaises = False\<rparr>"

definition failedImage :: imgprops where
  "failedImage =
     \<lparr>complete = True, naturalWidth = 0, naturalHeight = 0, width = 0, height = 0,
      drawRaises = False\<rparr>"

definition quietEnv :: env where
  "quietEnv =
     \<lparr>cancelReading = (\<lambda>n. False), loadOutcome = (\<lambda>n. OnLoad loadedImage),
      stickerLoaded = (\<lambda>u. failedImage), overlayLoaded = (\<lambda>u. failedImage),
      encodeOutcome = (\<lambda>b. Encoded), parseFloat = (\<lambda>s. Num (3 / 4)),
      canvasMounted = True\<rparr>"

definition initialState :: state where
  "initialState =
     \<lparr>sheet = \<lparr>cwidth = 300, cheight = 150, drawn = []\<rparr>, polls = 0, attempts = 0,
      trace = []\<rparr>"

definition initialApp :: app where
  "initialApp = \<lparr>generatedBlobs = [], isLoading = False, alerts = []\<rparr>"

definition item :: "string \<Rightarrow> ImageItem" where
  "item u = \<lparr>id = u, url = u, name = u, size = 1\<rparr>"

text \<open>
  The sequence of \<open>currentImgs\<close> over the iterations of the batch loop, and the numbers
  \<open>currentNum\<close> of their cells, when no iteration is cut short.
\<close>

definition batchesOf :: "Settings \<Rightarrow> string list \<Rightarrow> string list list" where
  "batchesOf settings targets =
     map (currentImgsOf settings targets) [0..<nat (totalBatchesOf settings targets)]"

definition batchNumbersOf :: "Settings \<Rightarrow> int \<Rightarrow> string list \<Rightarrow> int list list" where
  "batchNumbersOf settings startNum targets =
     map (\<lambda>b. map (currentNumOf startNum (int b * batchSizeOf settings))
                 [0..<length (currentImgsOf settings targets b)])
       [0..<nat (totalBatchesOf settings targets)]"

text \<open>
  Readings of a load event: whether it is an error, and what the element reports with
  it.
\<close>

definition isError :: "loadEvent \<Rightarrow> bool" where
  "isError ev = (case ev of OnError p \<Rightarrow> True | OnLoad p \<Rightarrow> False)"

definition reported :: "loadEvent \<Rightarrow> imgprops" where
  "reported ev = (case ev of OnError p \<Rightarrow> p | OnLoad p \<Rightarrow> p)"

text \<open>
  Readings of the effects of a run.  \<open>blobCalls\<close> lists the batches for which \<open>toBlob\<close>
  was called, in order.  \<open>encodedSheets\<close> lists, for each call of \<open>toBlob\<close>, the sources
  of the cells released since the call before: a cell is released once it is drawn, and
  its source is the one assigned last before the release.  \<open>numbersDrawn\<close> lists the
  sequence numbers filled as text on a canvas.
\<close>

fun blobCalls :: "effect list \<Rightarrow> nat list" where
  "blobCalls [] = []"
| "blobCalls (ToBlob b # tr) = b # blobCalls tr"
| "blobCalls (ev # tr) = blobCalls tr"

fun sheetStep ::
  "string list list \<times> string list \<times> string option \<Rightarrow> effect \<Rightarrow>
   string list list \<times> string list \<times> string option" where
  "sheetStep (out, cur, lastSrc) (AssignSrc s) = (out, cur, Some s)"
| "sheetStep (out, cur, lastSrc) Release =
     (out, (case lastSrc of Some s \<Rightarrow> cur @ [s] | None \<Rightarrow> cur), None)"
| "sheetStep (out, cur, lastSrc) (ToBlob b) = (out @ [cur], [], None)"
| "sheetStep (out, cur, lastSrc) (Wait ms) = (out, cur, lastSrc)"

definition sheetState :: "effect list \<Rightarrow> string list list \<times> string list \<times> string option" where
  "sheetState tr = foldl sheetStep ([], [], None) tr"

definition encodedSheets :: "effect list \<Rightarrow> string list list" where
  "encodedSheets tr = fst (sheetState tr)"

fun numbersDrawn :: "op list \<Rightarrow> int list" where
  "numbersDrawn [] = []"
| "numbersDrawn (FillText (Number n) x y # ops) = n # numbersDrawn ops"
| "numbersDrawn (ev # ops) = numbersDrawn ops"

text \<open>
  The state after one turn of the cell loop in which neither poll reads a cancellation.
\<close>

definition afterCell ::
  "env \<Rightarrow> (nat \<Rightarrow> string \<Rightarrow> bool \<times> imgprops \<Rightarrow> op list) \<Rightarrow> nat \<Rightarrow> string \<Rightarrow> state \<Rightarrow> state" where
  "afterCell e cell i src st =
     (let loaded = loadImg e src 2 (yieldEveryTenth i (snd (poll e st)))
      in release (draw (cell i src (fst loaded)) (snd (poll e (snd loaded)))))"

text \<open>
  The state in which \<open>toBlob\<close> is called for batch \<open>b\<close>, in an iteration of the batch
  loop in which no poll reads a cancellation.
\<close>

definition atEncode ::
  "env \<Rightarrow> Settings \<Rightarrow> opType \<Rightarrow> string list \<Rightarrow> int list \<Rightarrow> nat \<Rightarrow> state \<Rightarrow> state" where
  "atEncode e settings opType targets maskIndicesArr b st =
     toBlobCalled b
       (snd (poll e (snd (drawBatch e settings opType targets maskIndicesArr b
                            (wait 200 (snd (poll e st)))))))"

text \<open>
  The height \<open>drawAsync\<close> gives the canvas of a batch: \<open>rows * h + (rows - 1) * gap\<close>,
  with the rows and the cell height \<open>runGeneration\<close> passes.
\<close>

definition sheetHeight :: "env \<Rightarrow> Settings \<Rightarrow> string list \<Rightarrow> real" where
  "sheetHeight e settings imgs =
     real_of_int (sheetRowsOf settings imgs)
       * cellHOf (cellWOf settings) (getRatio (parseFloat e) settings)
     + real_of_int (sheetRowsOf settings imgs - 1) * gap settings"

text \<open>
  The results of the acquisitions of a batch, in order: each is what \<open>loadImg\<close> with two
  retries returns, started where the one before stopped.
\<close>

fun acquired :: "env \<Rightarrow> state \<Rightarrow> string list \<Rightarrow> (bool \<times> imgprops) list" where
  "acquired e st [] = []"
| "acquired e st (src # rest) =
     fst (loadImg e src 2 st) # acquired e (snd (loadImg e src 2 st)) rest"

section \<open>The mask-index grammar, stated on tokens\<close>

text \<open>
  The grammar of the mask-index expression in the words of the specification, to be
  compared with \<open>parseMaskIndices\<close>.  A token is a maximal run of code units that are not
  separators.  A token without a range separator (hyphen, tilde, em-dash, en-dash) has
  the value \<open>parseInt\<close> reads from it; a token with exactly one has the integers between
  the values of its two sides; any other token has no value.  \<open>decimal\<close> is the decimal
  numeral of a natural number, and \<open>integerText\<close> says that a token is an integer
  written in decimal, with an optional sign.
\<close>

definition isRangeSeparator :: "nat \<Rightarrow> bool" where
  "isRangeSeparator c = (c = hyphen \<or> isDashLike c)"

fun tokensFrom :: "jsstring \<Rightarrow> jsstring \<Rightarrow> jsstring list" where
  "tokensFrom cur [] = (if cur = [] then [] else [cur])"
| "tokensFrom cur (c # cs) =
     (if isSeparator c then (if cur = [] then tokensFrom [] cs else cur # tokensFrom [] cs)
      else tokensFrom (cur @ [c]) cs)"

definition tokens :: "jsstring \<Rightarrow> jsstring list" where
  "tokens input = tokensFrom [] input"

definition tokenValues :: "jsstring \<Rightarrow> int list" where
  "tokenValues t =
     (let n = length (filter isRangeSeparator t) in
      if n = 0 then (case parseInt t of Some v \<Rightarrow> [v] | None \<Rightarrow> [])
      else if n = 1 then
        (case (parseInt (takeWhile (\<lambda>c. \<not> isRangeSeparator c) t),
               parseInt (tl (dropWhile (\<lambda>c. \<not> isRangeSeparator c) t))) of
           (Some a, Some b) \<Rightarrow> [min a b .. max a b]
         | _ \<Rightarrow> [])
      else [])"

fun decimal :: "nat \<Rightarrow> jsstring" where
  "decimal n = (if n < 10 then [48 + n] else decimal (n div 10) @ [48 + n mod 10])"

definition integerText :: "jsstring \<Rightarrow> bool" where
  "integerText t =
     (case t of
        [] \<Rightarrow> False
      | c # cs \<Rightarrow> if c = 45 \<or> c = 43 then cs \<noteq> [] \<and> list_all isDecDigit cs
                  else list_all isDecDigit t)"

declare decimal.simps [simp del]

section \<open>Properties of the chunking\<close>

lemma totalBatches_covers:
  assumes "0 < batchSizeOf settings"
  shows "length targets \<le> nat (totalBatchesOf settings targets) * nat (batchSizeOf settings)"
proof -
  let ?n = "batchSizeOf settings"
  let ?x = "real (length targets) / real_of_int ?n"
  have "?x \<le> of_int \<lceil>?x\<rceil>" by (rule le_of_int_ceiling)
  then have "?x * real_of_int ?n \<le> of_int \<lceil>?x\<rceil> * real_of_int ?n"
    using assms by (intro mult_right_mono) simp_all
  moreover have "?x * real_of_int ?n = real (length targets)" using assms by simp
  ultimately have "real (length targets) \<le> of_int \<lceil>?x\<rceil> * real_of_int ?n" by simp
  then have "int (length targets) \<le> \<lceil>?x\<rceil> * ?n"
    by (metis of_int_le_iff of_int_mult of_int_of_nat_eq)
  moreover have "0 \<le> \<lceil>?x\<rceil>"
  proof -
    have "0 \<le> ?x" using assms by simp
    then have "\<lceil>0::real\<rceil> \<le> \<lceil>?x\<rceil>" by (rule ceiling_mono)
    then show ?thesis by simp
  qed
  ultimately have "int (length targets) \<le> int (nat \<lceil>?x\<rceil> * nat ?n)"
    using assms by simp
  then show ?thesis unfolding totalBatchesOf_def by linarith
qed

lemma slice_nonneg:
  assumes "0 \<le> a" and "0 \<le> b"
  shows "slice xs a b
           = take (nat (min b (int (length xs))) - nat (min a (int (length xs))))
               (drop (nat (min a (int (length xs)))) xs)"
  using assms by (simp add: slice_def Let_def)

lemma currentImgs_take_drop:
  assumes "0 < batchSizeOf settings"
  shows "currentImgsOf settings targets b
           = take (nat (batchSizeOf settings)) (drop (b * nat (batchSizeOf settings)) targets)"
proof -
  obtain n where n: "batchSizeOf settings = int n" "0 < n"
    using assms by (metis zero_less_imp_eq_int)
  let ?len = "length targets"
  have A: "int b * int n = int (b * n)" by simp
  have "(int b + 1) * int n = int ((b + 1) * n)" by (simp add: algebra_simps)
  then have B: "min ((int b + 1) * int n) (int ?len) = int (min ((b + 1) * n) ?len)"
    by (simp only: of_nat_min)
  have "currentImgsOf settings targets b = slice targets (int (b * n)) (int (min ((b + 1) * n) ?len))"
    unfolding currentImgsOf_def n(1) A B ..
  also have "\<dots> = take (nat (min (int (min ((b + 1) * n) ?len)) (int ?len))
                        - nat (min (int (b * n)) (int ?len)))
                     (drop (nat (min (int (b * n)) (int ?len))) targets)"
    by (rule slice_nonneg) simp_all
  also have "min (int (min ((b + 1) * n) ?len)) (int ?len) = int (min ((b + 1) * n) ?len)"
    by (simp only: of_nat_min [symmetric] min.assoc min.idem)
  also have "min (int (b * n)) (int ?len) = int (min (b * n) ?len)"
    by (rule of_nat_min [symmetric])
  finally have e: "currentImgsOf settings targets b
      = take (min ((b + 1) * n) ?len - min (b * n) ?len) (drop (min (b * n) ?len) targets)"
    by (simp only: nat_int)
  have "take (min ((b + 1) * n) ?len - min (b * n) ?len) (drop (min (b * n) ?len) targets)
          = take n (drop (b * n) targets)"
  proof (cases "b * n \<le> ?len")
    case True
    then show ?thesis
      by (cases "(b + 1) * n \<le> ?len") (simp_all add: min_def)
  next
    case False
    then show ?thesis by (simp add: min_def)
  qed
  with e show ?thesis using n by simp
qed

lemma concat_chunks:
  "concat (map (\<lambda>b. take n (drop (b * n) xs)) [0..<k]) = take (k * n) xs"
proof (induction k)
  case 0 show ?case by simp
next
  case (Suc k)
  have "take (k * n) xs @ take n (drop (k * n) xs) = take (k * n + n) xs"
    by (simp add: take_add)
  with Suc show ?case by (simp add: add.commute)
qed

lemma chunk_numbers:
  "concat (map (\<lambda>b. map (\<lambda>i. S + int b * int n + int i) [0..<length (take n (drop (b * n) xs))]) [0..<k])
     = map (\<lambda>j. S + int j) [0..<min (k * n) (length xs)]"
proof (induction k)
  case 0 show ?case by simp
next
  case (Suc k)
  let ?m = "min n (length xs - k * n)"
  have len: "length (take n (drop (k * n) xs)) = ?m" by simp
  have "map (\<lambda>i. S + int k * int n + int i) [0..<?m]
          = map (\<lambda>j. S + int j) (map (\<lambda>i. k * n + i) [0..<?m])"
    by (simp add: algebra_simps)
  also have "map (\<lambda>i. k * n + i) [0..<?m] = [k * n..<k * n + ?m]"
    by (simp add: map_add_upt add.commute)
  finally have step: "map (\<lambda>i. S + int k * int n + int i) [0..<?m]
          = map (\<lambda>j. S + int j) [k * n..<k * n + ?m]" .
  have split: "[0..<min (Suc k * n) (length xs)]
          = [0..<min (k * n) (length xs)] @ [k * n..<k * n + ?m]"
  proof (cases "k * n \<le> length xs")
    case True
    then have "min (Suc k * n) (length xs) = k * n + ?m" by (auto simp: min_def)
    moreover have "min (k * n) (length xs) = k * n" using True by simp
    ultimately show ?thesis
      using upt_add_eq_append [of 0 "k * n" ?m] by (simp only: le0)
  next
    case False
    then show ?thesis by (simp add: min_def)
  qed
  have "concat (map (\<lambda>b. map (\<lambda>i. S + int b * int n + int i)
                        [0..<length (take n (drop (b * n) xs))]) [0..<Suc k])
      = concat (map (\<lambda>b. map (\<lambda>i. S + int b * int n + int i)
                        [0..<length (take n (drop (b * n) xs))]) [0..<k])
        @ map (\<lambda>i. S + int k * int n + int i) [0..<?m]"
    by (simp only: upt_Suc_append le0 map_append concat_append list.map concat.simps
        append_Nil2 len)
  also have "\<dots> = map (\<lambda>j. S + int j) [0..<min (k * n) (length xs)]
                   @ map (\<lambda>j. S + int j) [k * n..<k * n + ?m]"
    by (simp only: Suc.IH step)
  also have "\<dots> = map (\<lambda>j. S + int j) [0..<min (Suc k * n) (length xs)]"
    by (simp only: split map_append)
  finally show ?case .
qed

lemma no_batches_when_nonpositive:
  assumes "batchSizeOf settings \<le> 0"
  shows "batchesOf settings targets = []"
proof -
  have "real (length targets) / real_of_int (batchSizeOf settings) \<le> 0"
    using assms by (simp add: divide_nonneg_nonpos)
  then have "totalBatchesOf settings targets \<le> 0"
    unfolding totalBatchesOf_def by (simp only: ceiling_le_zero)
  then show ?thesis by (simp add: batchesOf_def)
qed

lemma seven_elements:
  "length (targets :: string list) = 7 \<Longrightarrow> \<exists>a b c d e f g. targets = [a, b, c, d, e, f, g]"
  by (auto simp: length_Suc_conv eval_nat_numeral)

lemma batches_lengths:
  assumes "0 < batchSizeOf settings"
  shows "map length (batchesOf settings targets)
           = map (\<lambda>b. min (nat (batchSizeOf settings))
                          (length targets - b * nat (batchSizeOf settings)))
               [0..<nat (totalBatchesOf settings targets)]"
  by (simp add: batchesOf_def currentImgs_take_drop [OF assms] comp_def min.commute)

section \<open>The repack pre-pass\<close>

lemma targetsOf_nths:
  "targetsOf Repack S maskIdx images = map url (nths images {i. S + int i \<notin> set maskIdx})"
proof -
  have "targetsOf Repack S maskIdx images = nths (map url images) {i. S + int i \<notin> set maskIdx}"
    by (simp add: targetsOf_def nths_def Let_def case_prod_unfold)
  then show ?thesis by (simp add: nths_map)
qed

lemma survivors_count:
  "card {i. i < N \<and> i \<in> A} = N - card {i. i < N \<and> i \<notin> A}"
proof -
  have "{i. i < N \<and> i \<in> A} = {..<N} - {i. i < N \<and> i \<notin> A}" by auto
  moreover have "card ({..<N} - {i. i < N \<and> i \<notin> A}) = card {..<N} - card {i. i < N \<and> i \<notin> A}"
    by (rule card_Diff_subset) auto
  ultimately show ?thesis by simp
qed

lemma batches_concat:
  assumes "0 < batchSizeOf settings"
  shows "concat (batchesOf settings targets) = targets"
proof -
  let ?n = "nat (batchSizeOf settings)"
  let ?k = "nat (totalBatchesOf settings targets)"
  have "batchesOf settings targets = map (\<lambda>b. take ?n (drop (b * ?n) targets)) [0..<?k]"
    by (simp add: batchesOf_def currentImgs_take_drop [OF assms])
  then have "concat (batchesOf settings targets) = take (?k * ?n) targets"
    by (simp only: concat_chunks)
  then show ?thesis using totalBatches_covers [OF assms, of targets] by simp
qed

lemma batch_numbers_concat:
  assumes "0 < batchSizeOf settings"
  shows "concat (batchNumbersOf settings S targets) = map (\<lambda>j. S + int j) [0..<length targets]"
proof -
  let ?n = "nat (batchSizeOf settings)"
  let ?k = "nat (totalBatchesOf settings targets)"
  have n: "batchSizeOf settings = int ?n" using assms by simp
  have "batchNumbersOf settings S targets
          = map (\<lambda>b. map (\<lambda>i. S + int b * int ?n + int i)
                        [0..<length (take ?n (drop (b * ?n) targets))]) [0..<?k]"
    unfolding batchNumbersOf_def currentImgs_take_drop [OF assms] currentNumOf_def
    using n by simp
  then have "concat (batchNumbersOf settings S targets)
          = map (\<lambda>j. S + int j) [0..<min (?k * ?n) (length targets)]"
    by (simp only: chunk_numbers)
  then show ?thesis using totalBatches_covers [OF assms, of targets] by (simp add: min_def)
qed

section \<open>A run that is not cancelled\<close>

text \<open>
  When no poll reads a cancellation, every cell of every batch is acquired and drawn and
  every batch reaches the encoder.  The lemmas below follow the state through the cell
  loop, \<open>drawAsync\<close>, the batch loop and \<open>runGeneration\<close>.
\<close>

lemma blobCalls_append: "blobCalls (tr @ tr') = blobCalls tr @ blobCalls tr'"
  by (induction tr rule: blobCalls.induct) simp_all

lemma numbersDrawn_append: "numbersDrawn (ops @ ops') = numbersDrawn ops @ numbersDrawn ops'"
  by (induction ops rule: numbersDrawn.induct) simp_all

lemma sheetState_snoc: "sheetState (tr @ [ev]) = sheetStep (sheetState tr) ev"
  by (simp add: sheetState_def)

lemma sheetState_append: "sheetState (tr @ tr') = foldl sheetStep (sheetState tr) tr'"
  by (simp add: sheetState_def)

lemma loadImg_frame:
  "polls (snd (loadImg e src retries st)) = polls st
   \<and> sheet (snd (loadImg e src retries st)) = sheet st
   \<and> blobCalls (trace (snd (loadImg e src retries st))) = blobCalls (trace st)
   \<and> sheetState (trace (snd (loadImg e src retries st)))
       = (fst (sheetState (trace st)), fst (snd (sheetState (trace st))), Some src)
   \<and> attempts st < attempts (snd (loadImg e src retries st))
   \<and> attempts (snd (loadImg e src retries st)) \<le> attempts st + retries + 1"
proof (induction retries arbitrary: st)
  case 0
  obtain out cur l where s: "sheetState (trace st) = (out, cur, l)"
    by (cases "sheetState (trace st)")
  show ?case
    by (cases "loadOutcome e (attempts st)")
       (simp_all add: assignSrc_def blobCalls_append sheetState_snoc s)
next
  case (Suc retries)
  obtain out cur l where s: "sheetState (trace st) = (out, cur, l)"
    by (cases "sheetState (trace st)")
  show ?case
  proof (cases "loadOutcome e (attempts st)")
    case (OnLoad p)
    then show ?thesis by (simp add: assignSrc_def blobCalls_append sheetState_snoc s)
  next
    case (OnError p)
    let ?st = "retryLater src (assignSrc src st)"
    have eq: "loadImg e src (Suc retries) st = loadImg e src retries ?st"
      using OnError by simp
    have "trace ?st = trace st @ [AssignSrc src, Wait 200, AssignSrc src]"
      by (simp add: assignSrc_def retryLater_def)
    then have ss: "sheetState (trace ?st) = (out, cur, Some src)"
      by (simp add: sheetState_append s)
    have st: "polls ?st = polls st" "sheet ?st = sheet st"
      "blobCalls (trace ?st) = blobCalls (trace st)" "attempts ?st = attempts st + 1"
      by (simp_all add: assignSrc_def retryLater_def blobCalls_append)
    show ?thesis using Suc.IH [of ?st] unfolding eq st ss s by simp
  qed
qed

lemma loadImg_env:
  "loadImg (e\<lparr>cancelReading := c\<rparr>) src retries st = loadImg e src retries st"
  by (induction retries arbitrary: st) (simp_all split: loadEvent.splits)

lemma loadImg_attempts_only:
  "attempts s1 = attempts s2 \<Longrightarrow>
     fst (loadImg e src retries s1) = fst (loadImg e src retries s2)
     \<and> attempts (snd (loadImg e src retries s1)) = attempts (snd (loadImg e src retries s2))"
proof (induction retries arbitrary: s1 s2)
  case 0
  then show ?case by (simp add: assignSrc_def split: loadEvent.splits)
next
  case (Suc retries)
  have "attempts (retryLater src (assignSrc src s1)) = attempts (retryLater src (assignSrc src s2))"
    using Suc.prems by (simp add: assignSrc_def retryLater_def)
  from Suc.IH [OF this] show ?case
    using Suc.prems by (simp add: assignSrc_def split: loadEvent.splits)
qed

lemma loadImg_two:
  "loadImg e src 2 st =
     (case loadOutcome e (attempts st) of
        OnLoad p \<Rightarrow> ((False, p), assignSrc src st)
      | OnError p \<Rightarrow>
          (case loadOutcome e (attempts st + 1) of
             OnLoad p \<Rightarrow> ((False, p), assignSrc src (retryLater src (assignSrc src st)))
           | OnError p \<Rightarrow>
               (case loadOutcome e (attempts st + 2) of
                  OnLoad p \<Rightarrow>
                    ((False, p),
                     assignSrc src (retryLater src (assignSrc src (retryLater src (assignSrc src st)))))
                | OnError p \<Rightarrow>
                    ((True, p),
                     assignSrc src (retryLater src (assignSrc src (retryLater src (assignSrc src st))))))))"
  by (simp add: numeral_2_eq_2 assignSrc_def retryLater_def split: loadEvent.splits)

lemma drawCells_step:
  assumes "\<forall>n. \<not> cancelReading e n"
  shows "drawCells e cell i (src # rest) st = drawCells e cell (Suc i) rest (afterCell e cell i src st)"
  using assms
  by (simp add: poll_def afterCell_def Let_def split: prod.splits)

lemma afterCell_frame:
  "polls (afterCell e cell i src st) = polls st + 2
   \<and> cwidth (sheet (afterCell e cell i src st)) = cwidth (sheet st)
   \<and> cheight (sheet (afterCell e cell i src st)) = cheight (sheet st)
   \<and> blobCalls (trace (afterCell e cell i src st)) = blobCalls (trace st)
   \<and> sheetState (trace (afterCell e cell i src st))
       = (fst (sheetState (trace st)), fst (snd (sheetState (trace st))) @ [src], None)"
proof -
  let ?st2 = "yieldEveryTenth i (snd (poll e st))"
  have y: "polls ?st2 = polls st + 1" "sheet ?st2 = sheet st"
    "blobCalls (trace ?st2) = blobCalls (trace st)"
    "sheetState (trace ?st2) = sheetState (trace st)"
    by (cases "sheetState (trace st)",
        simp add: yieldEveryTenth_def poll_def wait_def blobCalls_append sheetState_snoc)+
  show ?thesis
    using loadImg_frame [of e src 2 ?st2] unfolding y
    by (simp add: afterCell_def Let_def release_def draw_def poll_def blobCalls_append
        sheetState_snoc)
qed

lemma afterCell_drawn:
  assumes "attempts sa = attempts st"
  shows "drawn (sheet (afterCell e cell i src st))
           = drawn (sheet st) @ cell i src (fst (loadImg e src 2 sa))"
    and "attempts (afterCell e cell i src st) = attempts (snd (loadImg e src 2 sa))"
proof -
  let ?st2 = "yieldEveryTenth i (snd (poll e st))"
  have a: "attempts sa = attempts ?st2" using assms
    by (simp add: yieldEveryTenth_def poll_def wait_def)
  have s: "sheet ?st2 = sheet st" by (simp add: yieldEveryTenth_def poll_def wait_def)
  note l = loadImg_attempts_only [OF a, of e src 2]
  show "drawn (sheet (afterCell e cell i src st))
           = drawn (sheet st) @ cell i src (fst (loadImg e src 2 sa))"
    using loadImg_frame [of e src 2 ?st2] l s
    by (simp add: afterCell_def Let_def release_def draw_def poll_def)
  show "attempts (afterCell e cell i src st) = attempts (snd (loadImg e src 2 sa))"
    using l by (simp add: afterCell_def Let_def release_def draw_def poll_def)
qed

lemma drawCells_quiet_frame:
  assumes "\<forall>n. \<not> cancelReading e n"
  shows "fst (drawCells e cell i imgs st) = True
       \<and> polls (snd (drawCells e cell i imgs st)) = polls st + 2 * length imgs
       \<and> cwidth (sheet (snd (drawCells e cell i imgs st))) = cwidth (sheet st)
       \<and> cheight (sheet (snd (drawCells e cell i imgs st))) = cheight (sheet st)
       \<and> blobCalls (trace (snd (drawCells e cell i imgs st))) = blobCalls (trace st)
       \<and> fst (sheetState (trace (snd (drawCells e cell i imgs st)))) = fst (sheetState (trace st))
       \<and> fst (snd (sheetState (trace (snd (drawCells e cell i imgs st)))))
           = fst (snd (sheetState (trace st))) @ imgs"
proof (induction imgs arbitrary: i st)
  case Nil
  show ?case by simp
next
  case (Cons src rest)
  show ?case
    unfolding drawCells_step [OF assms]
    using Cons.IH [of "Suc i" "afterCell e cell i src st"] afterCell_frame [of e cell i src st]
    by simp
qed

lemma drawCells_quiet_drawn:
  assumes "\<forall>n. \<not> cancelReading e n" and "attempts sa = attempts st"
  shows "drawn (sheet (snd (drawCells e cell i imgs st)))
           = drawn (sheet st)
             @ concat (map (\<lambda>k. cell (i + k) (imgs ! k) (acquired e sa imgs ! k)) [0..<length imgs])"
  using assms(2)
proof (induction imgs arbitrary: i st sa)
  case Nil
  show ?case by simp
next
  case (Cons src rest)
  let ?st' = "afterCell e cell i src st"
  let ?sa' = "snd (loadImg e src 2 sa)"
  have a: "attempts ?sa' = attempts ?st'"
    using afterCell_drawn(2) [OF Cons.prems, of e cell i src] by simp
  have d: "drawn (sheet ?st') = drawn (sheet st) @ cell i src (fst (loadImg e src 2 sa))"
    by (rule afterCell_drawn(1) [OF Cons.prems])
  have up: "[0..<length (src # rest)] = 0 # map Suc [0..<length rest]"
    by (simp add: upt_conv_Cons map_Suc_upt del: upt_Suc)
  show ?case
    unfolding drawCells_step [OF assms(1)] Cons.IH [OF a] d up
    by (simp add: comp_def)
qed

lemma isError_OnError: "isError ev \<Longrightarrow> \<exists>p. ev = OnError p"
  by (cases ev) (simp_all add: isError_def)

lemma loadImg_three_errors:
  assumes "isError (loadOutcome e (attempts st))" and "isError (loadOutcome e (attempts st + 1))"
    and "isError (loadOutcome e (attempts st + 2))"
  shows "fst (loadImg e src 2 st) = (True, reported (loadOutcome e (attempts st + 2)))"
    and "attempts (snd (loadImg e src 2 st)) = attempts st + 3"
    and "trace (snd (loadImg e src 2 st))
           = trace st @ [AssignSrc src, Wait 200, AssignSrc src, AssignSrc src,
                         Wait 200, AssignSrc src, AssignSrc src]"
proof -
  obtain p0 where p0: "loadOutcome e (attempts st) = OnError p0"
    using isError_OnError [OF assms(1)] by (rule exE)
  obtain p1 where p1: "loadOutcome e (attempts st + 1) = OnError p1"
    using isError_OnError [OF assms(2)] by (rule exE)
  obtain p2 where p2: "loadOutcome e (attempts st + 2) = OnError p2"
    using isError_OnError [OF assms(3)] by (rule exE)
  note p = p0 p1 p2
  show "fst (loadImg e src 2 st) = (True, reported (loadOutcome e (attempts st + 2)))"
    and "attempts (snd (loadImg e src 2 st)) = attempts st + 3"
    and "trace (snd (loadImg e src 2 st))
           = trace st @ [AssignSrc src, Wait 200, AssignSrc src, AssignSrc src,
                         Wait 200, AssignSrc src, AssignSrc src]"
    unfolding loadImg_two p
    by (simp_all add: reported_def assignSrc_def retryLater_def)
qed

lemma drawCells_quiet_attempts:
  assumes "\<forall>n. \<not> cancelReading e n" and "\<forall>n. isError (loadOutcome e n)"
  shows "attempts (snd (drawCells e cell i imgs st)) = attempts st + 3 * length imgs"
proof (induction imgs arbitrary: i st)
  case Nil
  show ?case by simp
next
  case (Cons src rest)
  have "attempts (snd (loadImg e src 2 st)) = attempts st + 3"
    using assms(2) by (intro loadImg_three_errors(2)) simp_all
  then have "attempts (afterCell e cell i src st) = attempts st + 3"
    using afterCell_drawn(2) [of st st e cell i src] by simp
  then show ?case
    unfolding drawCells_step [OF assms(1)] Cons.IH by simp
qed

lemma acquired_length: "length (acquired e st imgs) = length imgs"
  by (induction imgs arbitrary: st) simp_all

lemma acquired_all_errors:
  assumes "\<forall>n. isError (loadOutcome e n)" and "k < length imgs"
  shows "fst (acquired e st imgs ! k) = True"
  using assms(2)
proof (induction imgs arbitrary: st k)
  case Nil
  then show ?case by simp
next
  case (Cons src rest)
  have "fst (loadImg e src 2 st) = (True, reported (loadOutcome e (attempts st + 2)))"
    using assms(1) by (intro loadImg_three_errors(1)) simp_all
  then have "fst (fst (loadImg e src 2 st)) = True" by simp
  then show ?case using Cons by (cases k) simp_all
qed

lemma drawAsync_quiet:
  assumes "\<forall>n. \<not> cancelReading e n"
    and r_def: "r = drawAsync e imgs rows ncols w h gp globalOffset startNum maskIdx settings
                      applyMask forceHideNums st"
    and cw_def: "cw = real_of_int ncols * w + real_of_int (ncols - 1) * gp"
    and ch_def: "ch = real_of_int rows * h + real_of_int (rows - 1) * gp"
  shows "fst r = True"
    and "cwidth (sheet (snd r)) = cw"
    and "cheight (sheet (snd r)) = ch"
    and "drawn (sheet (snd r))
           = [FillStyle ''#FFFFFF'', FillRect 0 0 cw ch]
             @ concat (map (\<lambda>k. cellOps settings ncols w h gp globalOffset startNum maskIdx
                                   applyMask forceHideNums
                                   (loadOptional (stickerLoaded e) (stickerImgUrl settings))
                                   k (imgs ! k) (acquired e st imgs ! k))
                        [0..<length imgs])
             @ overlayOps settings (loadOptional (overlayLoaded e) (overlayImgUrl settings)) cw ch"
    and "blobCalls (trace (snd r)) = blobCalls (trace st)"
    and "fst (sheetState (trace (snd r))) = fst (sheetState (trace st))"
    and "fst (snd (sheetState (trace (snd r)))) = fst (snd (sheetState (trace st))) @ imgs"
    and "polls (snd r) = polls st + 1 + 2 * length imgs"
proof -
  let ?st2 = "draw [FillStyle ''#FFFFFF'', FillRect 0 0 cw ch]
                (setHeight ch (setWidth cw (snd (poll e st))))"
  let ?cell = "cellOps settings ncols w h gp globalOffset startNum maskIdx applyMask
                 forceHideNums (loadOptional (stickerLoaded e) (stickerImgUrl settings))"
  let ?d = "drawCells e ?cell 0 imgs ?st2"
  have st2: "polls ?st2 = polls st + 1" "cwidth (sheet ?st2) = cw" "cheight (sheet ?st2) = ch"
    "drawn (sheet ?st2) = [FillStyle ''#FFFFFF'', FillRect 0 0 cw ch]"
    "trace ?st2 = trace st" "attempts st = attempts ?st2"
    by (simp_all add: draw_def setHeight_def setWidth_def poll_def)
  have f: "fst ?d = True" using drawCells_quiet_frame [OF assms(1), of ?cell 0 imgs ?st2] by simp
  then obtain st3 where d: "?d = (True, st3)" by (cases ?d) simp
  have r: "r = (True, draw (overlayOps settings (loadOptional (overlayLoaded e)
                                (overlayImgUrl settings)) cw ch) st3)"
    using assms(1) d unfolding r_def drawAsync_def cw_def ch_def
    by (simp add: poll_def Let_def)
  note fr = drawCells_quiet_frame [OF assms(1), of ?cell 0 imgs ?st2, unfolded d st2]
  note dr = drawCells_quiet_drawn [OF assms(1) st2(6), of ?cell 0 imgs, unfolded d st2]
  show "fst r = True" unfolding r by simp
  show "cwidth (sheet (snd r)) = cw" unfolding r using fr by (simp add: draw_def)
  show "cheight (sheet (snd r)) = ch" unfolding r using fr by (simp add: draw_def)
  show "drawn (sheet (snd r))
           = [FillStyle ''#FFFFFF'', FillRect 0 0 cw ch]
             @ concat (map (\<lambda>k. ?cell k (imgs ! k) (acquired e st imgs ! k)) [0..<length imgs])
             @ overlayOps settings (loadOptional (overlayLoaded e) (overlayImgUrl settings)) cw ch"
    unfolding r using dr by (simp add: draw_def)
  show "blobCalls (trace (snd r)) = blobCalls (trace st)" unfolding r using fr by (simp add: draw_def)
  show "fst (sheetState (trace (snd r))) = fst (sheetState (trace st))"
    unfolding r using fr by (simp add: draw_def)
  show "fst (snd (sheetState (trace (snd r)))) = fst (snd (sheetState (trace st))) @ imgs"
    unfolding r using fr by (simp add: draw_def)
  show "polls (snd r) = polls st + 1 + 2 * length imgs"
    unfolding r using fr by (simp add: draw_def)
qed

lemma numbersDrawn_concat:
  "numbersDrawn (concat xss) = concat (map numbersDrawn xss)"
  by (induction xss) (simp_all add: numbersDrawn_append)

lemma numbersDrawn_cellOps:
  "numbersDrawn (cellOps settings ncols w h gp globalOffset startNum maskIdx applyMask
                   forceHideNums stickerImgObj k src img)
     = (if showNum settings \<and> \<not> forceHideNums then [currentNumOf startNum globalOffset k] else [])"
proof -
  have a: "numbersDrawn (cellImageOps src b p x y w h) = []" for b p x y
    by (simp add: cellImageOps_def placeholderOps_def coverOps_def Let_def)
  have b: "numbersDrawn (maskOps settings applyMask maskIdx stickerImgObj n x y w h) = []" for n x y
    by (simp add: maskOps_def lineOps_def stickerOps_def Let_def split: option.splits)
  have c: "numbersDrawn (numberOps settings forceHideNums n x y w h)
             = (if showNum settings \<and> \<not> forceHideNums then [n] else [])" for n x y
    by (simp add: numberOps_def Let_def)
  show ?thesis by (simp add: cellOps_def Let_def numbersDrawn_append a b c)
qed

lemma numbersDrawn_overlayOps: "numbersDrawn (overlayOps settings ov cw ch) = []"
  by (simp add: overlayOps_def split: option.splits)

lemma drawBatch_quiet:
  assumes "\<forall>n. \<not> cancelReading e n"
    and r_def: "r = drawBatch e settings opType targets maskIndicesArr b st"
    and imgs_def: "imgs = currentImgsOf settings targets b"
  shows "fst r = True"
    and "cheight (sheet (snd r))
           = real_of_int (sheetRowsOf settings imgs)
               * cellHOf (cellWOf settings) (getRatio (parseFloat e) settings)
             + real_of_int (sheetRowsOf settings imgs - 1) * gap settings"
    and "numbersDrawn (drawn (sheet (snd r)))
           = (if showNum settings
              then map (currentNumOf (startNumber settings) (int b * batchSizeOf settings))
                     [0..<length imgs]
              else [])"
    and "blobCalls (trace (snd r)) = blobCalls (trace st)"
    and "fst (sheetState (trace (snd r))) = fst (sheetState (trace st))"
    and "fst (snd (sheetState (trace (snd r)))) = fst (snd (sheetState (trace st))) @ imgs"
proof -
  have r: "r = drawAsync e imgs (sheetRowsOf settings imgs) (colsOf settings) (cellWOf settings)
                 (cellHOf (cellWOf settings) (getRatio (parseFloat e) settings)) (gap settings)
                 (int b * batchSizeOf settings) (startNumber settings) maskIndicesArr
                 (drawSettingsOf settings) (applyMaskOf settings opType) False st"
    unfolding r_def imgs_def drawBatch_def Let_def ..
  note q = drawAsync_quiet [OF assms(1) r refl refl]
  show "fst r = True" by (rule q(1))
  show "cheight (sheet (snd r))
           = real_of_int (sheetRowsOf settings imgs)
               * cellHOf (cellWOf settings) (getRatio (parseFloat e) settings)
             + real_of_int (sheetRowsOf settings imgs - 1) * gap settings"
    by (rule q(3))
  have sn: "showNum (drawSettingsOf settings) = showNum settings"
    by (simp add: drawSettingsOf_def)
  have "concat (map (\<lambda>k. if showNum settings then [currentNumOf (startNumber settings)
                                                     (int b * batchSizeOf settings) k] else [])
                  [0..<length imgs])
          = (if showNum settings
             then map (currentNumOf (startNumber settings) (int b * batchSizeOf settings))
                    [0..<length imgs]
             else [])"
    by (induction "length imgs" arbitrary: imgs) (simp_all add: concat_map_singleton)
  then show "numbersDrawn (drawn (sheet (snd r)))
           = (if showNum settings
              then map (currentNumOf (startNumber settings) (int b * batchSizeOf settings))
                     [0..<length imgs]
              else [])"
    unfolding q(4)
    by (simp add: numbersDrawn_append numbersDrawn_concat numbersDrawn_cellOps
        numbersDrawn_overlayOps sn comp_def)
  show "blobCalls (trace (snd r)) = blobCalls (trace st)" by (rule q(5))
  show "fst (sheetState (trace (snd r))) = fst (sheetState (trace st))" by (rule q(6))
  show "fst (snd (sheetState (trace (snd r)))) = fst (snd (sheetState (trace st))) @ imgs"
    by (rule q(7))
qed

lemma runBatches_step:
  assumes "\<forall>n. \<not> cancelReading e n"
  shows "runBatches e settings opType targets m (b # bs) temp st =
     (case encodeOutcome e b of
        EncodeRaises msg \<Rightarrow> (Raised msg, temp, atEncode e settings opType targets m b st)
      | EncodeNull \<Rightarrow>
          runBatches e settings opType targets m bs temp
            (clearCanvas (atEncode e settings opType targets m b st))
      | Encoded \<Rightarrow>
          runBatches e settings opType targets m bs
            (temp @ [blobOf settings (atEncode e settings opType targets m b st)])
            (clearCanvas (atEncode e settings opType targets m b st)))"
  using assms
  by (simp add: poll_def atEncode_def split: prod.splits encodeResult.splits)

lemma atEncode_quiet:
  assumes "\<forall>n. \<not> cancelReading e n"
    and a_def: "a = atEncode e settings opType targets m b st"
    and imgs_def: "imgs = currentImgsOf settings targets b"
  shows "cheight (content (blobOf settings a))
           = real_of_int (sheetRowsOf settings imgs)
               * cellHOf (cellWOf settings) (getRatio (parseFloat e) settings)
             + real_of_int (sheetRowsOf settings imgs - 1) * gap settings"
    and "numbersDrawn (drawn (content (blobOf settings a)))
           = (if showNum settings
              then map (currentNumOf (startNumber settings) (int b * batchSizeOf settings))
                     [0..<length imgs]
              else [])"
    and "blobCalls (trace (clearCanvas a)) = blobCalls (trace st) @ [b]"
    and "sheetState (trace (clearCanvas a))
           = (fst (sheetState (trace st)) @ [fst (snd (sheetState (trace st))) @ imgs], [], None)"
proof -
  let ?st1 = "wait 200 (snd (poll e st))"
  let ?r = "drawBatch e settings opType targets m b ?st1"
  have st1: "blobCalls (trace ?st1) = blobCalls (trace st)"
    "sheetState (trace ?st1) = sheetState (trace st)"
    by (cases "sheetState (trace st)", simp add: wait_def poll_def blobCalls_append sheetState_snoc)+
  note q = drawBatch_quiet [where settings = settings and opType = opType and targets = targets
                              and maskIndicesArr = m and b = b and st = ?st1,
                            OF assms(1) refl imgs_def, unfolded st1]
  have a: "a = toBlobCalled b (snd (poll e (snd ?r)))" unfolding a_def atEncode_def ..
  obtain out cur l where s: "sheetState (trace (snd ?r)) = (out, cur, l)"
    by (cases "sheetState (trace (snd ?r))")
  show "cheight (content (blobOf settings a))
           = real_of_int (sheetRowsOf settings imgs)
               * cellHOf (cellWOf settings) (getRatio (parseFloat e) settings)
             + real_of_int (sheetRowsOf settings imgs - 1) * gap settings"
    unfolding a using q(2) by (simp add: blobOf_def toBlobCalled_def poll_def)
  show "numbersDrawn (drawn (content (blobOf settings a)))
           = (if showNum settings
              then map (currentNumOf (startNumber settings) (int b * batchSizeOf settings))
                     [0..<length imgs]
              else [])"
    unfolding a using q(3) by (simp add: blobOf_def toBlobCalled_def poll_def)
  show "blobCalls (trace (clearCanvas a)) = blobCalls (trace st) @ [b]"
    unfolding a using q(4)
    by (simp add: clearCanvas_def toBlobCalled_def poll_def setHeight_def setWidth_def draw_def
        blobCalls_append)
  show "sheetState (trace (clearCanvas a))
           = (fst (sheetState (trace st)) @ [fst (snd (sheetState (trace st))) @ imgs], [], None)"
    unfolding a using q(5,6) s
    by (simp add: clearCanvas_def toBlobCalled_def poll_def setHeight_def setWidth_def draw_def
        sheetState_snoc)
qed

lemma runBatches_quiet:
  assumes "\<forall>n. \<not> cancelReading e n"
  shows "(\<forall>b\<in>set bs. encodeOutcome e b = Encoded) \<Longrightarrow>
     fst (snd (sheetState (trace st))) = [] \<Longrightarrow>
     (let r = runBatches e settings opType targets m bs temp st in
      fst r = Completed
      \<and> map (\<lambda>bl. cheight (content bl)) (fst (snd r))
           = map (\<lambda>bl. cheight (content bl)) temp
             @ map (\<lambda>b. sheetHeight e settings (currentImgsOf settings targets b)) bs
      \<and> map (\<lambda>bl. numbersDrawn (drawn (content bl))) (fst (snd r))
           = map (\<lambda>bl. numbersDrawn (drawn (content bl))) temp
             @ map (\<lambda>b. if showNum settings
                         then map (currentNumOf (startNumber settings) (int b * batchSizeOf settings))
                                [0..<length (currentImgsOf settings targets b)]
                         else []) bs
      \<and> blobCalls (trace (snd (snd r))) = blobCalls (trace st) @ bs
      \<and> fst (sheetState (trace (snd (snd r))))
           = fst (sheetState (trace st)) @ map (currentImgsOf settings targets) bs
      \<and> fst (snd (sheetState (trace (snd (snd r))))) = [])"
proof (induction bs arbitrary: temp st)
  case Nil
  then show ?case by simp
next
  case (Cons b bs)
  let ?a = "atEncode e settings opType targets m b st"
  let ?temp = "temp @ [blobOf settings ?a]"
  let ?st = "clearCanvas ?a"
  have r: "runBatches e settings opType targets m (b # bs) temp st
             = runBatches e settings opType targets m bs ?temp ?st"
    unfolding runBatches_step [OF assms(1)] using Cons.prems(1) by simp
  note a = atEncode_quiet [where settings = settings and opType = opType and targets = targets
                             and m = m and b = b and st = st,
                           OF assms(1) refl refl, unfolded Cons.prems(2)]
  have enc': "\<forall>b\<in>set bs. encodeOutcome e b = Encoded" using Cons.prems(1) by simp
  have cur': "fst (snd (sheetState (trace ?st))) = []" using a(4) by simp
  show ?case
    unfolding r using Cons.IH [OF enc' cur', of ?temp] a
    by (simp add: Let_def sheetHeight_def)
qed

lemma runGeneration_quiet:
  assumes "\<forall>n. \<not> cancelReading e n" and "\<forall>b. encodeOutcome e b = Encoded"
    and "canvasMounted e" and "images \<noteq> []" and "trace st = []"
    and R_def: "R = runGeneration e settings images opType a st"
    and t_def: "targets = targetsOf opType (startNumber settings)
                            (parseMaskIndices (maskIndices settings)) images"
  shows "exitOf R = Completed"
    and "generatedBlobs (appAfter R) = collected R"
    and "encodedSheets (trace (world R)) = batchesOf settings targets"
    and "blobCalls (trace (world R)) = [0..<nat (totalBatchesOf settings targets)]"
    and "map (\<lambda>bl. cheight (content bl)) (generatedBlobs (appAfter R))
           = map (sheetHeight e settings) (batchesOf settings targets)"
    and "showNum settings \<Longrightarrow>
         map (\<lambda>bl. numbersDrawn (drawn (content bl))) (generatedBlobs (appAfter R))
           = batchNumbersOf settings (startNumber settings) targets"
proof -
  let ?bs = "[0..<nat (totalBatchesOf settings targets)]"
  let ?st1 = "wait 50 st"
  let ?r = "runBatches e settings opType targets (parseMaskIndices (maskIndices settings)) ?bs []
              ?st1"
  have s1: "sheetState (trace ?st1) = ([], [], None)" "blobCalls (trace ?st1) = []"
    using assms(5) by (simp_all add: wait_def sheetState_def)
  have enc: "\<forall>b\<in>set ?bs. encodeOutcome e b = Encoded" using assms(2) by simp
  have cur: "fst (snd (sheetState (trace ?st1))) = []" using s1 by simp
  note q = runBatches_quiet [OF assms(1) enc cur, of settings opType targets
                               "parseMaskIndices (maskIndices settings)" "[]",
                             unfolded Let_def s1]
  obtain ex tb st2 where r: "?r = (ex, tb, st2)" by (cases ?r)
  have R: "R = \<lparr>appAfter = (a\<lparr>generatedBlobs := [], isLoading := True\<rparr>)
                              \<lparr>generatedBlobs := tb, isLoading := False\<rparr>,
                 exitOf = Completed, collected = tb, world = st2\<lparr>polls := polls st2 + 1\<rparr>\<rparr>"
    using assms(1,3,4) q(1) r unfolding R_def runGeneration_def t_def [symmetric] Let_def
    by (simp add: poll_def split: exit.splits)
  show "exitOf R = Completed" unfolding R by simp
  show "generatedBlobs (appAfter R) = collected R" unfolding R by simp
  show "encodedSheets (trace (world R)) = batchesOf settings targets"
    unfolding R using q r by (simp add: encodedSheets_def batchesOf_def)
  show "blobCalls (trace (world R)) = ?bs" unfolding R using q r by simp
  show "map (\<lambda>bl. cheight (content bl)) (generatedBlobs (appAfter R))
           = map (sheetHeight e settings) (batchesOf settings targets)"
    unfolding R using q r by (simp add: batchesOf_def comp_def)
  show "map (\<lambda>bl. numbersDrawn (drawn (content bl))) (generatedBlobs (appAfter R))
           = batchNumbersOf settings (startNumber settings) targets" if "showNum settings"
    unfolding R using q r that by (simp add: batchNumbersOf_def)
qed

lemmas parse_eval = parseMaskIndices_def splitSeparators_def str_def isSeparator_def
  isWhiteSpace_def parsePart_def trim_def replaceDashes_def includesUnit_def hyphen_def
  isDashLike_def parseInt_def parseDigits_def isDecDigit_def isHexDigit_def digitsValue_def
  digitValue_def Let_def upto_rec1

lemmas chunk_eval = batchesOf_def batchNumbersOf_def totalBatchesOf_def batchSizeOf_def
  colsOf_def rowsOf_def orElse_def currentImgsOf_def slice_def upt_conv_Cons currentNumOf_def
  sheetRowsOf_def


section \<open>The repack run\<close>

text \<open>
  C5.  In repack mode, with \<open>N\<close> input images and the start number \<open>S\<close>, a run that is not
  cancelled and whose sheets are all encoded puts on its sheets exactly the images at the
  positions \<open>i\<close> whose global number \<open>S + i\<close> is not in the mask set, in their order; their
  count is \<open>N\<close> minus the number of masked positions; and the numbers drawn on the cells
  of the published sheets, sheet after sheet, are \<open>S, S + 1, \<dots>\<close> without a gap.  (Numbering
  is switched on and the batch size is positive.)
\<close>

theorem repack_prepass:
  assumes "\<forall>n. \<not> cancelReading e n" and "\<forall>b. encodeOutcome e b = Encoded"
    and "canvasMounted e" and "images \<noteq> []" and "trace st = []"
    and "showNum settings" and "0 < batchSizeOf settings"
    and "R = runGeneration e settings images Repack a st"
    and "S = startNumber settings" and "M = parseMaskIndices (maskIndices settings)"
  shows "concat (encodedSheets (trace (world R))) = map url (nths images {i. S + int i \<notin> set M})
       \<and> length (concat (encodedSheets (trace (world R))))
           = length images - card {i. i < length images \<and> S + int i \<in> set M}
       \<and> concat (map (\<lambda>bl. numbersDrawn (drawn (content bl))) (generatedBlobs (appAfter R)))
           = map (\<lambda>j. S + int j)
               [0..<length images - card {i. i < length images \<and> S + int i \<in> set M}]"
proof -
  let ?targets = "targetsOf Repack S M images"
  note q = runGeneration_quiet [OF assms(1-5,8), of ?targets, unfolded assms(9,10) [symmetric],
                                OF refl]
  have len: "length ?targets = length images - card {i. i < length images \<and> S + int i \<in> set M}"
  proof -
    have "length ?targets = card {i. i < length images \<and> i \<in> {i. S + int i \<notin> set M}}"
      by (simp only: targetsOf_nths length_map length_nths)
    also have "\<dots> = length images - card {i. i < length images \<and> i \<notin> {i. S + int i \<notin> set M}}"
      by (rule survivors_count)
    finally show ?thesis by simp
  qed
  have sheets: "concat (encodedSheets (trace (world R))) = ?targets"
    unfolding q(3) by (rule batches_concat [OF assms(7)])
  have nums: "concat (map (\<lambda>bl. numbersDrawn (drawn (content bl))) (generatedBlobs (appAfter R)))
                = map (\<lambda>j. S + int j) [0..<length ?targets]"
    unfolding q(6) [OF assms(6)] by (rule batch_numbers_concat [OF assms(7)])
  show ?thesis using sheets nums len by (simp add: targetsOf_nths)
qed

theorem repack_prepass_witness:
  "(\<forall>n. \<not> cancelReading quietEnv n) \<and> (\<forall>b. encodeOutcome quietEnv b = Encoded)
   \<and> concat (encodedSheets (trace (world (runGeneration quietEnv
        (DEFAULT_SETTINGS\<lparr>groupRows := Num 1, maskIndices := str ''2,5''\<rparr>)
        (map item [''a'', ''b'', ''c'', ''d'', ''e'', ''f'']) Repack initialApp initialState))))
       = [''a'', ''c'', ''d'', ''f'']
   \<and> concat (map (\<lambda>bl. numbersDrawn (drawn (content bl)))
        (generatedBlobs (appAfter (runGeneration quietEnv
           (DEFAULT_SETTINGS\<lparr>groupRows := Num 1, maskIndices := str ''2,5''\<rparr>)
           (map item [''a'', ''b'', ''c'', ''d'', ''e'', ''f'']) Repack initialApp initialState))))
       = [1, 2, 3, 4]"
proof -
  let ?s = "DEFAULT_SETTINGS\<lparr>groupRows := Num 1, maskIndices := str ''2,5''\<rparr>"
  let ?images = "map item [''a'', ''b'', ''c'', ''d'', ''e'', ''f'']"
  let ?R = "runGeneration quietEnv ?s ?images Repack initialApp initialState"
  have h: "\<forall>n. \<not> cancelReading quietEnv n" "\<forall>b. encodeOutcome quietEnv b = Encoded"
    "canvasMounted quietEnv" "?images \<noteq> []" "trace initialState = []" "showNum ?s"
    "0 < batchSizeOf ?s"
    by (simp_all add: quietEnv_def initialState_def DEFAULT_SETTINGS_def batchSizeOf_def
        colsOf_def rowsOf_def orElse_def)
  have m: "parseMaskIndices (maskIndices ?s) = [2, 5]"
    by (simp add: DEFAULT_SETTINGS_def parse_eval)
  have s: "startNumber ?s = 1" by (simp add: DEFAULT_SETTINGS_def)
  have t: "map url (nths ?images {i. 1 + int i \<notin> set [2, 5]}) = [''a'', ''c'', ''d'', ''f'']"
    unfolding targetsOf_nths [symmetric] by (simp add: targetsOf_def item_def upt_conv_Cons)
  have "{i. i < length ?images \<and> 1 + int i \<in> set [2, 5]} = {1, 4}" by auto
  then have c: "length ?images - card {i. i < length ?images \<and> 1 + int i \<in> set [2, 5]} = 4"
    by simp
  note w = repack_prepass [OF h refl refl refl, of initialApp, unfolded m s]
  have "concat (encodedSheets (trace (world ?R))) = [''a'', ''c'', ''d'', ''f'']"
    using w t by simp
  moreover have "concat (map (\<lambda>bl. numbersDrawn (drawn (content bl)))
                   (generatedBlobs (appAfter ?R))) = [1, 2, 3, 4]"
    using w c by (simp add: upt_conv_Cons)
  ultimately show ?thesis using h(1,2) by simp
qed

section \<open>Ratio resolution\<close>

text \<open>
  C10.  With \<open>aspectRatio = 'custom'\<close> the ratio is \<open>customW / customH\<close> after a width that
  is missing, NaN or zero has been replaced by 1000 and such a height by 1500; the
  divisor is therefore never zero, and the ratio is a positive number whenever the two
  substituted values are positive.  (Numbers are exact here: an Infinity given as width
  or height is outside the model.)
\<close>

theorem getRatio_custom:
  assumes "aspectRatio settings = ''custom''"
  shows "getRatio pf settings
           = Num (orElse (customW settings) 1000 / orElse (customH settings) 1500)
       \<and> orElse (customH settings) 1500 \<noteq> 0
       \<and> (customW settings \<in> {Undefined, NaN, Num 0} \<longrightarrow> orElse (customW settings) 1000 = 1000)
       \<and> (customH settings \<in> {Undefined, NaN, Num 0} \<longrightarrow> orElse (customH settings) 1500 = 1500)
       \<and> (\<forall>a. customW settings = Num a \<and> a \<noteq> 0 \<longrightarrow> orElse (customW settings) 1000 = a)
       \<and> (\<forall>b. customH settings = Num b \<and> b \<noteq> 0 \<longrightarrow> orElse (customH settings) 1500 = b)
       \<and> (0 < orElse (customW settings) 1000 \<and> 0 < orElse (customH settings) 1500 \<longrightarrow>
            (\<exists>r. getRatio pf settings = Num r \<and> 0 < r))"
  using assms
  by (auto simp: getRatio_def orElse_def Let_def split: jsnum.splits)

theorem getRatio_custom_witness:
  "aspectRatio (DEFAULT_SETTINGS\<lparr>aspectRatio := ''custom'', customW := NaN, customH := Num 0\<rparr>)
     = ''custom''
   \<and> getRatio (\<lambda>s. NaN)
         (DEFAULT_SETTINGS\<lparr>aspectRatio := ''custom'', customW := NaN, customH := Num 0\<rparr>)
       = Num (1000 / 1500)
   \<and> getRatio (\<lambda>s. NaN)
         (DEFAULT_SETTINGS\<lparr>aspectRatio := ''custom'', customW := Num 800, customH := Undefined\<rparr>)
       = Num (800 / 1500)"
  using getRatio_custom [of "DEFAULT_SETTINGS\<lparr>aspectRatio := ''custom'', customW := NaN, customH := Num 0\<rparr>" "\<lambda>s. NaN"]
        getRatio_custom [of "DEFAULT_SETTINGS\<lparr>aspectRatio := ''custom'', customW := Num 800, customH := Undefined\<rparr>" "\<lambda>s. NaN"]
  by (simp add: DEFAULT_SETTINGS_def orElse_def)

section \<open>Export quality\<close>

text \<open>
  The sentence "any quality other than 100 selects JPEG parameterized by quality / 100"
  fails below 10: the source raises such a value to 10 first.  At quality 5 the encoder
  is given 0.1, not 0.05.
\<close>

theorem quality_counterexample:
  "(1::int) \<le> 5 \<and> (5::int) \<le> 100 \<and> (5::int) \<noteq> 100
   \<and> mimeTypeOf (DEFAULT_SETTINGS\<lparr>qualityVal := 5\<rparr>) = ''image/jpeg''
   \<and> encoderQualityOf (DEFAULT_SETTINGS\<lparr>qualityVal := 5\<rparr>) = Some (10 / 100)
   \<and> encoderQualityOf (DEFAULT_SETTINGS\<lparr>qualityVal := 5\<rparr>) \<noteq> Some (5 / 100)"
  by (simp add: mimeTypeOf_def encoderQualityOf_def isPngOf_def qValOf_def DEFAULT_SETTINGS_def)

text \<open>
  C7, as the code has it.  For every quality from 1 to 100: exactly 100 selects PNG,
  with no quality argument; any other value selects JPEG with the argument
  \<open>max 10 quality / 100\<close>.  Every blob is built with this type and argument.
\<close>

theorem quality_selects_format:
  assumes "1 \<le> qualityVal settings" and "qualityVal settings \<le> 100"
  shows "(qualityVal settings = 100 \<longrightarrow>
            mimeTypeOf settings = ''image/png'' \<and> encoderQualityOf settings = None)
       \<and> (qualityVal settings \<noteq> 100 \<longrightarrow>
            mimeTypeOf settings = ''image/jpeg''
            \<and> encoderQualityOf settings = Some (real_of_int (max 10 (qualityVal settings)) / 100))
       \<and> mime (blobOf settings st) = mimeTypeOf settings
       \<and> quality (blobOf settings st) = encoderQualityOf settings"
  using assms
  by (auto simp: mimeTypeOf_def encoderQualityOf_def isPngOf_def qValOf_def blobOf_def Let_def max_def)

theorem quality_selects_format_witness:
  "1 \<le> qualityVal (DEFAULT_SETTINGS\<lparr>qualityVal := 100\<rparr>)
   \<and> qualityVal (DEFAULT_SETTINGS\<lparr>qualityVal := 100\<rparr>) \<le> 100
   \<and> mimeTypeOf (DEFAULT_SETTINGS\<lparr>qualityVal := 100\<rparr>) = ''image/png''
   \<and> encoderQualityOf (DEFAULT_SETTINGS\<lparr>qualityVal := 100\<rparr>) = None
   \<and> mimeTypeOf DEFAULT_SETTINGS = ''image/jpeg''
   \<and> encoderQualityOf DEFAULT_SETTINGS = Some (50 / 100)
   \<and> encoderQualityOf (DEFAULT_SETTINGS\<lparr>qualityVal := 5\<rparr>) = Some (10 / 100)"
  using quality_selects_format [of "DEFAULT_SETTINGS\<lparr>qualityVal := 100\<rparr>"]
        quality_selects_format [of DEFAULT_SETTINGS]
        quality_selects_format [of "DEFAULT_SETTINGS\<lparr>qualityVal := 5\<rparr>"]
  by (simp add: DEFAULT_SETTINGS_def)

section \<open>Cover-fit\<close>

lemma cover_wide:
  fixes w h iw ih :: real
  assumes "0 < w" "0 < h" "0 < iw" "0 < ih" "iw / ih > w / h"
  shows "w \<le> h * (iw / ih)"
proof -
  have "w < iw / ih * h" using assms(2,5) by (simp add: pos_divide_less_eq)
  then show ?thesis by (simp add: mult.commute)
qed

lemma cover_tall:
  fixes w h iw ih :: real
  assumes "0 < w" "0 < h" "0 < iw" "0 < ih" "\<not> iw / ih > w / h"
  shows "h \<le> w / (iw / ih)"
proof -
  have "iw / ih \<le> w / h" using assms by simp
  then have "iw * h \<le> w * ih" using assms by (simp add: field_simps)
  then have "h \<le> w * ih / iw" using assms by (simp add: field_simps)
  then show ?thesis by simp
qed

text \<open>
  C3.  For an image that passed the strict check and a cell with positive sides, the
  cell is drawn as: save, clip to the cell rectangle, one \<open>drawImage\<close>, restore.  With
  \<open>iRatio = width / height\<close> of the image and \<open>cRatio = w / h\<close> of the cell: if
  \<open>iRatio > cRatio\<close> the image is drawn with the cell's height and the width
  \<open>h * iRatio\<close>, at \<open>x - (h * iRatio - w) / 2\<close>; otherwise with the cell's width and the
  height \<open>w / iRatio\<close>, at \<open>y - (w / iRatio - h) / 2\<close>.  In both cases the drawn rectangle
  contains the cell, has the same centre, and keeps the image's ratio.  (Exact
  arithmetic; \<open>drawImage\<close> is assumed not to raise.)
\<close>

theorem cover_fit:
  assumes "0 < w" and "0 < h" and "0 < width img" and "0 < height img"
    and "complete img" and "naturalWidth img \<noteq> 0" and "naturalHeight img \<noteq> 0"
    and "\<not> drawRaises img"
    and "iRatio = real (width img) / real (height img)" and "cRatio = w / h"
  shows "(iRatio > cRatio \<longrightarrow>
            cellImageOps src False img x y w h
              = [Save, BeginPath, Rect x y w h, Clip,
                 DrawImage src (x - (h * iRatio - w) / 2) y (h * iRatio) h, Restore]
            \<and> x - (h * iRatio - w) / 2 \<le> x
            \<and> x + w \<le> (x - (h * iRatio - w) / 2) + h * iRatio
            \<and> (x - (h * iRatio - w) / 2) + h * iRatio / 2 = x + w / 2
            \<and> h * iRatio / h = iRatio)
       \<and> (\<not> iRatio > cRatio \<longrightarrow>
            cellImageOps src False img x y w h
              = [Save, BeginPath, Rect x y w h, Clip,
                 DrawImage src x (y - (w / iRatio - h) / 2) w (w / iRatio), Restore]
            \<and> y - (w / iRatio - h) / 2 \<le> y
            \<and> y + h \<le> (y - (w / iRatio - h) / 2) + w / iRatio
            \<and> (y - (w / iRatio - h) / 2) + w / iRatio / 2 = y + h / 2
            \<and> w / (w / iRatio) = iRatio)"
proof (intro conjI impI)
  have pos: "0 < real (width img)" "0 < real (height img)" using assms by simp_all
  {
    assume wide: "iRatio > cRatio"
    then have gt: "real (width img) / real (height img) > w / h" using assms(9,10) by simp
    have c: "w \<le> h * iRatio"
      using cover_wide [OF assms(1,2) pos gt] assms(9) by simp
    show "cellImageOps src False img x y w h
              = [Save, BeginPath, Rect x y w h, Clip,
                 DrawImage src (x - (h * iRatio - w) / 2) y (h * iRatio) h, Restore]"
      using assms gt by (simp add: cellImageOps_def coverOps_def Let_def)
    show "x - (h * iRatio - w) / 2 \<le> x" using c by simp
    show "x + w \<le> (x - (h * iRatio - w) / 2) + h * iRatio" using c by (simp add: field_simps)
    show "(x - (h * iRatio - w) / 2) + h * iRatio / 2 = x + w / 2" by (simp add: field_simps)
    show "h * iRatio / h = iRatio" using assms(2) by simp
  }
  {
    assume tall: "\<not> iRatio > cRatio"
    then have ngt: "\<not> real (width img) / real (height img) > w / h" using assms(9,10) by simp
    have c: "h \<le> w / iRatio"
      using cover_tall [OF assms(1,2) pos ngt] assms(9) by simp
    have ipos: "0 < iRatio" using pos assms(9) by simp
    show "cellImageOps src False img x y w h
              = [Save, BeginPath, Rect x y w h, Clip,
                 DrawImage src x (y - (w / iRatio - h) / 2) w (w / iRatio), Restore]"
      using assms ngt by (simp add: cellImageOps_def coverOps_def Let_def)
    show "y - (w / iRatio - h) / 2 \<le> y" using c by simp
    show "y + h \<le> (y - (w / iRatio - h) / 2) + w / iRatio" using c by (simp add: field_simps)
    show "(y - (w / iRatio - h) / 2) + w / iRatio / 2 = y + h / 2" by (simp add: field_simps)
    show "w / (w / iRatio) = iRatio" using assms(1) ipos by simp
  }
qed

theorem cover_fit_witness:
  "cellImageOps ''a.png'' False loadedImage 0 0 1500 2000
     = [Save, BeginPath, Rect 0 0 1500 2000, Clip,
        DrawImage ''a.png'' (0 - (2000 * (4 / 3) - 1500) / 2) 0 (2000 * (4 / 3)) 2000, Restore]
   \<and> cellImageOps ''a.png'' False loadedImage 0 0 2000 1000
     = [Save, BeginPath, Rect 0 0 2000 1000, Clip,
        DrawImage ''a.png'' 0 (0 - (2000 / (4 / 3) - 1000) / 2) 2000 (2000 / (4 / 3)), Restore]"
  using cover_fit [where w = 1500 and h = 2000 and img = loadedImage and iRatio = "4 / 3"
                     and cRatio = "1500 / 2000" and src = "''a.png''" and x = 0 and y = 0]
        cover_fit [where w = 2000 and h = 1000 and img = loadedImage and iRatio = "4 / 3"
                     and cRatio = "2000 / 1000" and src = "''a.png''" and x = 0 and y = 0]
  by (simp add: loadedImage_def)

section \<open>Seven images in three columns\<close>

lemma sheetRows_eval:
  "\<lceil>(6::real) / 3\<rceil> = 2" "\<lceil>(1::real) / 3\<rceil> = 1" "\<lceil>(7::real) / 6\<rceil> = 2"
  by (rule ceiling_unique, simp, simp)+

lemma batches_seven_two_rows:
  assumes "cols settings = Num 3" and "groupRows settings = Num 2"
  shows "batchesOf settings [t1, t2, t3, t4, t5, t6, t7] = [[t1, t2, t3, t4, t5, t6], [t7]]"
    and "sheetRowsOf settings [t1, t2, t3, t4, t5, t6] = 2"
    and "sheetRowsOf settings [t7] = 1"
  using assms by (simp_all add: chunk_eval sheetRows_eval)

text \<open>
  The scenario of C8 fails on the code with the application's defaults: a batch holds
  \<open>cols * groupRows\<close> images, which is 9 for 3 columns and the default 3 rows per group,
  so a run over 7 images encodes one sheet with all 7 of them, not sheets of 3 and 4.
\<close>

theorem batches_counterexample:
  "cols DEFAULT_SETTINGS = Num 3
   \<and> length (map item [''1'', ''2'', ''3'', ''4'', ''5'', ''6'', ''7'']) = 7
   \<and> encodedSheets (trace (world (runGeneration quietEnv DEFAULT_SETTINGS
        (map item [''1'', ''2'', ''3'', ''4'', ''5'', ''6'', ''7'']) Normal initialApp initialState)))
       = [[''1'', ''2'', ''3'', ''4'', ''5'', ''6'', ''7'']]
   \<and> map length (encodedSheets (trace (world (runGeneration quietEnv DEFAULT_SETTINGS
        (map item [''1'', ''2'', ''3'', ''4'', ''5'', ''6'', ''7'']) Normal initialApp initialState))))
       \<noteq> [3, 4]"
proof -
  let ?images = "map item [''1'', ''2'', ''3'', ''4'', ''5'', ''6'', ''7'']"
  let ?R = "runGeneration quietEnv DEFAULT_SETTINGS ?images Normal initialApp initialState"
  have h: "\<forall>n. \<not> cancelReading quietEnv n" "\<forall>b. encodeOutcome quietEnv b = Encoded"
    "canvasMounted quietEnv" "?images \<noteq> []" "trace initialState = []"
    by (simp_all add: quietEnv_def initialState_def)
  have t: "targetsOf Normal (startNumber DEFAULT_SETTINGS)
             (parseMaskIndices (maskIndices DEFAULT_SETTINGS)) ?images
           = [''1'', ''2'', ''3'', ''4'', ''5'', ''6'', ''7'']"
    by (simp add: targetsOf_def item_def)
  have sev: "\<lceil>(7::real) / 9\<rceil> = 1" by (rule ceiling_unique) simp_all
  have b: "batchesOf DEFAULT_SETTINGS [''1'', ''2'', ''3'', ''4'', ''5'', ''6'', ''7'']
             = [[''1'', ''2'', ''3'', ''4'', ''5'', ''6'', ''7'']]"
    by (simp add: chunk_eval DEFAULT_SETTINGS_def sev)
  have "encodedSheets (trace (world ?R)) = [[''1'', ''2'', ''3'', ''4'', ''5'', ''6'', ''7'']]"
    using runGeneration_quiet(3) [OF h refl t [symmetric]] b by simp
  then show ?thesis by (simp add: DEFAULT_SETTINGS_def)
qed

text \<open>
  C8, as the code has it.  A run over 7 images with 3 columns and 2 rows per group, not
  in repack mode, not cancelled and with every sheet encoded, encodes exactly two sheets,
  holding the first 6 images and the last one; their row counts are
  \<open>ceil (6 / 3) = 2\<close> and \<open>ceil (1 / 3) = 1\<close>, which are the rows of the canvases
  published (\<open>h\<close> is the cell height).
\<close>

theorem batches_of_seven:
  assumes "\<forall>n. \<not> cancelReading e n" and "\<forall>b. encodeOutcome e b = Encoded"
    and "canvasMounted e" and "trace st = []"
    and "cols settings = Num 3" and "groupRows settings = Num 2"
    and "length images = 7" and "opType \<noteq> Repack"
    and "R = runGeneration e settings images opType a st"
    and "h = cellHOf (cellWOf settings) (getRatio (parseFloat e) settings)"
  shows "map length (encodedSheets (trace (world R))) = [6, 1]
       \<and> map (sheetRowsOf settings) (encodedSheets (trace (world R))) = [2, 1]
       \<and> blobCalls (trace (world R)) = [0, 1]
       \<and> length (generatedBlobs (appAfter R)) = 2
       \<and> map (\<lambda>bl. cheight (content bl)) (generatedBlobs (appAfter R))
           = [2 * h + 1 * gap settings, 1 * h + 0 * gap settings]"
proof -
  obtain i1 i2 i3 i4 i5 i6 i7 where im: "images = [i1, i2, i3, i4, i5, i6, i7]"
    using assms(7) by (auto simp: length_Suc_conv eval_nat_numeral)
  let ?targets = "[url i1, url i2, url i3, url i4, url i5, url i6, url i7]"
  have t: "?targets = targetsOf opType (startNumber settings)
                        (parseMaskIndices (maskIndices settings)) images"
    using assms(8) by (simp add: targetsOf_def im)
  have ne: "images \<noteq> []" using im by simp
  note q = runGeneration_quiet [OF assms(1,2,3) ne assms(4,9) t]
  note b = batches_seven_two_rows [OF assms(5,6)]
  have total: "nat (totalBatchesOf settings ?targets) = 2"
    using arg_cong [OF b(1) [of "url i1" "url i2" "url i3" "url i4" "url i5" "url i6" "url i7"],
                    of length]
    by (simp add: batchesOf_def)
  have "[0..<2] = [0, Suc 0]" by (simp add: upt_conv_Cons)
  then have calls: "blobCalls (trace (world R)) = [0, 1]" using q(4) total by simp
  have len: "length (generatedBlobs (appAfter R)) = 2"
    using arg_cong [OF q(5), of length] b(1) by simp
  show ?thesis
    using q(3,5) b calls len by (simp add: sheetHeight_def assms(10))
qed

theorem batches_of_seven_witness:
  "(\<forall>n. \<not> cancelReading quietEnv n) \<and> (\<forall>b. encodeOutcome quietEnv b = Encoded)
   \<and> cols (DEFAULT_SETTINGS\<lparr>groupRows := Num 2\<rparr>) = Num 3
   \<and> map length (encodedSheets (trace (world (runGeneration quietEnv
        (DEFAULT_SETTINGS\<lparr>groupRows := Num 2\<rparr>)
        (map item [''1'', ''2'', ''3'', ''4'', ''5'', ''6'', ''7'']) Normal initialApp
        initialState)))) = [6, 1]
   \<and> map (\<lambda>bl. cheight (content bl)) (generatedBlobs (appAfter (runGeneration quietEnv
        (DEFAULT_SETTINGS\<lparr>groupRows := Num 2\<rparr>)
        (map item [''1'', ''2'', ''3'', ''4'', ''5'', ''6'', ''7'']) Normal initialApp
        initialState))) = [4000, 2000]"
proof -
  let ?s = "DEFAULT_SETTINGS\<lparr>groupRows := Num 2\<rparr>"
  let ?images = "map item [''1'', ''2'', ''3'', ''4'', ''5'', ''6'', ''7'']"
  have h: "\<forall>n. \<not> cancelReading quietEnv n" "\<forall>b. encodeOutcome quietEnv b = Encoded"
    "canvasMounted quietEnv" "trace initialState = []" "cols ?s = Num 3" "groupRows ?s = Num 2"
    "length ?images = 7" "Normal \<noteq> Repack"
    by (simp_all add: quietEnv_def initialState_def DEFAULT_SETTINGS_def)
  have hh: "cellHOf (cellWOf ?s) (getRatio (parseFloat quietEnv) ?s) = 2000"
    by (simp add: cellHOf_def cellWOf_def colsOf_def orElse_def getRatio_def quietEnv_def
        DEFAULT_SETTINGS_def)
  have g: "gap ?s = 0" by (simp add: DEFAULT_SETTINGS_def)
  note w = batches_of_seven [OF h refl refl, of initialApp, unfolded hh g]
  show ?thesis using w h(1,2,5) by simp
qed

section \<open>What a batch draws\<close>

lemma drawAsync_sheet:
  assumes "\<forall>n. \<not> cancelReading e n"
    and "cw = real_of_int ncols * w + real_of_int (ncols - 1) * gp"
    and "ch = real_of_int rows * h + real_of_int (rows - 1) * gp"
  shows "drawn (sheet (snd (drawAsync e imgs rows ncols w h gp globalOffset startNum maskIdx
                              settings applyMask forceHideNums st)))
     = [FillStyle ''#FFFFFF'', FillRect 0 0 cw ch]
       @ concat (map (\<lambda>k.
            cellImageOps (imgs ! k) (fst (acquired e st imgs ! k)) (snd (acquired e st imgs ! k))
              (cellX ncols w gp k) (cellY ncols h gp k) w h
            @ numberOps settings forceHideNums (currentNumOf startNum globalOffset k)
                (cellX ncols w gp k) (cellY ncols h gp k) w h
            @ maskOps settings applyMask maskIdx
                (loadOptional (stickerLoaded e) (stickerImgUrl settings))
                (currentNumOf startNum globalOffset k)
                (cellX ncols w gp k) (cellY ncols h gp k) w h)
          [0..<length imgs])
       @ overlayOps settings (loadOptional (overlayLoaded e) (overlayImgUrl settings)) cw ch"
  using drawAsync_quiet(4) [OF assms(1) refl assms(2,3)]
  by (simp add: cellOps_def Let_def)

lemma drawAsync_all_errors:
  assumes "\<forall>n. \<not> cancelReading e n" and "\<forall>n. isError (loadOutcome e n)"
  shows "attempts (snd (drawAsync e imgs rows ncols w h gp globalOffset startNum maskIdx
                          settings applyMask forceHideNums st))
           = attempts st + 3 * length imgs"
proof -
  let ?cw = "real_of_int ncols * w + real_of_int (ncols - 1) * gp"
  let ?ch = "real_of_int rows * h + real_of_int (rows - 1) * gp"
  let ?st2 = "draw [FillStyle ''#FFFFFF'', FillRect 0 0 ?cw ?ch]
                (setHeight ?ch (setWidth ?cw (snd (poll e st))))"
  let ?cell = "cellOps settings ncols w h gp globalOffset startNum maskIdx applyMask
                 forceHideNums (loadOptional (stickerLoaded e) (stickerImgUrl settings))"
  let ?d = "drawCells e ?cell 0 imgs ?st2"
  have a: "attempts ?st2 = attempts st"
    by (simp add: draw_def setHeight_def setWidth_def poll_def)
  have f: "fst ?d = True" using drawCells_quiet_frame [OF assms(1), of ?cell 0 imgs ?st2] by simp
  then obtain st3 where d: "?d = (True, st3)" by (cases ?d) simp
  have "attempts st3 = attempts st + 3 * length imgs"
    using drawCells_quiet_attempts [OF assms, of ?cell 0 imgs ?st2] d a by simp
  then show ?thesis
    using assms(1) d by (simp add: drawAsync_def poll_def Let_def draw_def)
qed

lemma placeholder_when_failed:
  assumes "isBroken \<or> naturalWidth img = 0 \<or> naturalHeight img = 0 \<or> \<not> complete img"
  shows "cellImageOps src isBroken img x y w h
          = [FillStyle ''#f0f0f0'', FillRect x y w h, FillStyle ''#ccc'',
             Font ''bold'' (w / 10) ''sans-serif'', TextAlign ''center'',
             FillText (Glyph ''!'') (x + w / 2) (y + h / 2)]"
  using assms by (auto simp: cellImageOps_def placeholderOps_def)

lemma drawSettings_fields:
  "showNum (drawSettingsOf settings) = showNum settings"
  "fontWeight (drawSettingsOf settings) = fontWeight settings"
  "fontSize (drawSettingsOf settings) = fontSize settings"
  "fontPos (drawSettingsOf settings) = fontPos settings"
  "fontFamily (drawSettingsOf settings) = fontFamily settings"
  "fontColor (drawSettingsOf settings) = fontColor settings"
  "enableStroke (drawSettingsOf settings) = enableStroke settings"
  "fontStrokeColor (drawSettingsOf settings) = fontStrokeColor settings"
  "enableShadow (drawSettingsOf settings) = enableShadow settings"
  "fontShadowColor (drawSettingsOf settings) = fontShadowColor settings"
  "overlayImgUrl (drawSettingsOf settings) = overlayImgUrl settings"
  "overlayOpacity (drawSettingsOf settings) = overlayOpacity settings"
  "overlayMode (drawSettingsOf settings) = overlayMode settings"
  by (simp_all add: drawSettingsOf_def)

lemma drawSettings_ops:
  "numberOps (drawSettingsOf settings) f n x y w h = numberOps settings f n x y w h"
  "overlayOps (drawSettingsOf settings) ov cw ch = overlayOps settings ov cw ch"
  "overlayImgUrl (drawSettingsOf settings) = overlayImgUrl settings"
  unfolding numberOps_def overlayOps_def drawSettings_fields by (rule refl)+

lemma maskOps_drawSettings:
  "maskOps (drawSettingsOf settings) applyMask maskIdx
     (loadOptional (stickerLoaded e) (stickerImgUrl (drawSettingsOf settings))) num x y w h
   = (if applyMask \<and> num \<in> set maskIdx
      then if maskMode settings = Line \<or> stickerImgUrl settings = None
              \<or> stickerImgUrl settings = Some []
           then [BeginPath, StrokeStyle (maskColor settings),
                 LineWidth (maskWidth settings * (w / 500) * 5), LineCap ''round'']
                @ (if lineStyle settings = Cross
                   then [MoveTo (x + w * 0.2) (y + h * 0.2), LineTo (x + w * 0.8) (y + h * 0.8),
                         MoveTo (x + w * 0.8) (y + h * 0.2), LineTo (x + w * 0.2) (y + h * 0.8)]
                   else [MoveTo (x + w * 0.2) (y + h * 0.8), LineTo (x + w * 0.8) (y + h * 0.2)])
                @ [Stroke]
           else (case stickerImgUrl settings of
                   None \<Rightarrow> []
                 | Some u \<Rightarrow>
                     if complete (stickerLoaded e u) \<and> 0 < naturalWidth (stickerLoaded e u)
                     then stickerOps settings u (stickerLoaded e u) x y w h
                     else [])
      else [])"
proof (cases "maskMode settings")
  case Line
  then show ?thesis
    by (simp add: maskOps_def drawSettingsOf_def loadOptional_def lineOps_def)
next
  case Image
  then show ?thesis
    by (cases "stickerImgUrl settings")
       (simp_all add: maskOps_def drawSettingsOf_def loadOptional_def lineOps_def stickerOps_def)
qed

lemma drawBatch_sheet:
  assumes "\<forall>n. \<not> cancelReading e n"
    and "w = cellWOf settings" and "h = cellHOf w (getRatio (parseFloat e) settings)"
    and "imgs = currentImgsOf settings targets b"
    and "cw = real_of_int (colsOf settings) * w + real_of_int (colsOf settings - 1) * gap settings"
    and "ch = real_of_int (sheetRowsOf settings imgs) * h
              + real_of_int (sheetRowsOf settings imgs - 1) * gap settings"
  shows "drawn (sheet (snd (drawBatch e settings opType targets maskIndicesArr b st)))
     = [FillStyle ''#FFFFFF'', FillRect 0 0 cw ch]
       @ concat (map (\<lambda>k.
            cellImageOps (imgs ! k) (fst (acquired e st imgs ! k)) (snd (acquired e st imgs ! k))
              (cellX (colsOf settings) w (gap settings) k) (cellY (colsOf settings) h (gap settings) k) w h
            @ numberOps settings False
                (startNumber settings + int b * batchSizeOf settings + int k)
                (cellX (colsOf settings) w (gap settings) k) (cellY (colsOf settings) h (gap settings) k) w h
            @ maskOps (drawSettingsOf settings) (applyMaskOf settings opType) maskIndicesArr
                (loadOptional (stickerLoaded e) (stickerImgUrl (drawSettingsOf settings)))
                (startNumber settings + int b * batchSizeOf settings + int k)
                (cellX (colsOf settings) w (gap settings) k) (cellY (colsOf settings) h (gap settings) k) w h)
          [0..<length imgs])
       @ overlayOps settings (loadOptional (overlayLoaded e) (overlayImgUrl settings)) cw ch"
  unfolding drawBatch_def Let_def assms(2,3,4,5,6)
  by (simp only: drawAsync_sheet [OF assms(1) refl refl] drawSettings_ops currentNumOf_def)

lemma acquired_quiet_two:
  "acquired quietEnv initialState [s1, s2] = [(False, loadedImage), (False, loadedImage)]"
  by (simp add: loadImg_two quietEnv_def)

lemma quiet_cell_sizes:
  assumes "cols settings = Num 3" and "aspectRatio settings = ''0.75''"
  shows "cellWOf settings = 1500"
    and "cellHOf 1500 (getRatio (parseFloat quietEnv) settings) = 2000"
    and "colsOf settings = 3"
  using assms
  by (simp_all add: cellWOf_def cellHOf_def colsOf_def orElse_def getRatio_def quietEnv_def)

lemma one_row: "\<lceil>(2::real) / 3\<rceil> = 1" "\<lceil>(1::real) / 3\<rceil> = 1"
  by (rule ceiling_unique, simp, simp)+

section \<open>Acquisition with retries\<close>

text \<open>
  C9.  An acquisition makes at most three attempts: the first, and one after each of at
  most two errors, each 200 ms after the error and with the same source assigned again.
  It returns at the first attempt that loads; after a third error it returns the element
  marked broken, and raises nothing.  A cell whose element is broken, or reports a zero
  natural width or height, or is not complete, is drawn as the placeholder: a flat fill
  and the glyph \<open>!\<close>.  A call of \<open>drawAsync\<close> that is not cancelled runs to its end and
  draws every cell from what its acquisition returned; when every attempt of every
  image fails it has made three attempts per image and drawn the placeholder in every
  cell, with the numbers, the marks and the overlay as otherwise.
\<close>

theorem acquisition_retries:
  "attempts (snd (loadImg e src 2 st)) \<le> attempts st + 3
   \<and> (\<not> isError (loadOutcome e (attempts st)) \<longrightarrow>
        fst (loadImg e src 2 st) = (False, reported (loadOutcome e (attempts st)))
        \<and> attempts (snd (loadImg e src 2 st)) = attempts st + 1
        \<and> trace (snd (loadImg e src 2 st)) = trace st @ [AssignSrc src])
   \<and> (isError (loadOutcome e (attempts st)) \<and> \<not> isError (loadOutcome e (attempts st + 1)) \<longrightarrow>
        fst (loadImg e src 2 st) = (False, reported (loadOutcome e (attempts st + 1)))
        \<and> attempts (snd (loadImg e src 2 st)) = attempts st + 2
        \<and> trace (snd (loadImg e src 2 st))
            = trace st @ [AssignSrc src, Wait 200, AssignSrc src, AssignSrc src])
   \<and> (isError (loadOutcome e (attempts st)) \<and> isError (loadOutcome e (attempts st + 1)) \<longrightarrow>
        fst (loadImg e src 2 st)
          = (isError (loadOutcome e (attempts st + 2)), reported (loadOutcome e (attempts st + 2)))
        \<and> attempts (snd (loadImg e src 2 st)) = attempts st + 3
        \<and> trace (snd (loadImg e src 2 st))
            = trace st @ [AssignSrc src, Wait 200, AssignSrc src, AssignSrc src,
                          Wait 200, AssignSrc src, AssignSrc src])
   \<and> (isBroken \<or> naturalWidth img = 0 \<or> naturalHeight img = 0 \<or> \<not> complete img \<longrightarrow>
        cellImageOps src isBroken img x y w h
          = [FillStyle ''#f0f0f0'', FillRect x y w h, FillStyle ''#ccc'',
             Font ''bold'' (w / 10) ''sans-serif'', TextAlign ''center'',
             FillText (Glyph ''!'') (x + w / 2) (y + h / 2)])
   \<and> ((\<forall>n. \<not> cancelReading e n) \<longrightarrow>
        fst (drawAsync e imgs rows ncols w h gp globalOffset startNum maskIdx settings applyMask
               forceHideNums st) = True
        \<and> drawn (sheet (snd (drawAsync e imgs rows ncols w h gp globalOffset startNum maskIdx
                                 settings applyMask forceHideNums st)))
          = [FillStyle ''#FFFFFF'',
             FillRect 0 0 (real_of_int ncols * w + real_of_int (ncols - 1) * gp)
               (real_of_int rows * h + real_of_int (rows - 1) * gp)]
            @ concat (map (\<lambda>k.
                 cellImageOps (imgs ! k) (fst (acquired e st imgs ! k))
                   (snd (acquired e st imgs ! k)) (cellX ncols w gp k) (cellY ncols h gp k) w h
                 @ numberOps settings forceHideNums (currentNumOf startNum globalOffset k)
                     (cellX ncols w gp k) (cellY ncols h gp k) w h
                 @ maskOps settings applyMask maskIdx
                     (loadOptional (stickerLoaded e) (stickerImgUrl settings))
                     (currentNumOf startNum globalOffset k)
                     (cellX ncols w gp k) (cellY ncols h gp k) w h)
               [0..<length imgs])
            @ overlayOps settings (loadOptional (overlayLoaded e) (overlayImgUrl settings))
                (real_of_int ncols * w + real_of_int (ncols - 1) * gp)
                (real_of_int rows * h + real_of_int (rows - 1) * gp))
   \<and> ((\<forall>n. \<not> cancelReading e n) \<and> (\<forall>n. isError (loadOutcome e n)) \<longrightarrow>
        attempts (snd (drawAsync e imgs rows ncols w h gp globalOffset startNum maskIdx settings
                         applyMask forceHideNums st)) = attempts st + 3 * length imgs
        \<and> drawn (sheet (snd (drawAsync e imgs rows ncols w h gp globalOffset startNum maskIdx
                                 settings applyMask forceHideNums st)))
          = [FillStyle ''#FFFFFF'',
             FillRect 0 0 (real_of_int ncols * w + real_of_int (ncols - 1) * gp)
               (real_of_int rows * h + real_of_int (rows - 1) * gp)]
            @ concat (map (\<lambda>k.
                 [FillStyle ''#f0f0f0'', FillRect (cellX ncols w gp k) (cellY ncols h gp k) w h,
                  FillStyle ''#ccc'', Font ''bold'' (w / 10) ''sans-serif'', TextAlign ''center'',
                  FillText (Glyph ''!'') (cellX ncols w gp k + w / 2) (cellY ncols h gp k + h / 2)]
                 @ numberOps settings forceHideNums (currentNumOf startNum globalOffset k)
                     (cellX ncols w gp k) (cellY ncols h gp k) w h
                 @ maskOps settings applyMask maskIdx
                     (loadOptional (stickerLoaded e) (stickerImgUrl settings))
                     (currentNumOf startNum globalOffset k)
                     (cellX ncols w gp k) (cellY ncols h gp k) w h)
               [0..<length imgs])
            @ overlayOps settings (loadOptional (overlayLoaded e) (overlayImgUrl settings))
                (real_of_int ncols * w + real_of_int (ncols - 1) * gp)
                (real_of_int rows * h + real_of_int (rows - 1) * gp))"
proof (intro conjI impI)
  show "attempts (snd (loadImg e src 2 st)) \<le> attempts st + 3"
    using loadImg_frame [of e src 2 st] by simp
next
  assume "\<not> isError (loadOutcome e (attempts st))"
  then show "fst (loadImg e src 2 st) = (False, reported (loadOutcome e (attempts st)))"
    and "attempts (snd (loadImg e src 2 st)) = attempts st + 1"
    and "trace (snd (loadImg e src 2 st)) = trace st @ [AssignSrc src]"
    by (simp_all add: loadImg_two isError_def reported_def assignSrc_def split: loadEvent.splits)
next
  assume "isError (loadOutcome e (attempts st)) \<and> \<not> isError (loadOutcome e (attempts st + 1))"
  then show "fst (loadImg e src 2 st) = (False, reported (loadOutcome e (attempts st + 1)))"
    and "attempts (snd (loadImg e src 2 st)) = attempts st + 2"
    and "trace (snd (loadImg e src 2 st))
            = trace st @ [AssignSrc src, Wait 200, AssignSrc src, AssignSrc src]"
    by (simp_all add: loadImg_two isError_def reported_def assignSrc_def retryLater_def
        split: loadEvent.splits)
next
  assume "isError (loadOutcome e (attempts st)) \<and> isError (loadOutcome e (attempts st + 1))"
  then show "fst (loadImg e src 2 st)
          = (isError (loadOutcome e (attempts st + 2)), reported (loadOutcome e (attempts st + 2)))"
    and "attempts (snd (loadImg e src 2 st)) = attempts st + 3"
    and "trace (snd (loadImg e src 2 st))
            = trace st @ [AssignSrc src, Wait 200, AssignSrc src, AssignSrc src,
                          Wait 200, AssignSrc src, AssignSrc src]"
    by (simp_all add: loadImg_two isError_def reported_def assignSrc_def retryLater_def
        split: loadEvent.splits)
next
  assume "isBroken \<or> naturalWidth img = 0 \<or> naturalHeight img = 0 \<or> \<not> complete img"
  then show "cellImageOps src isBroken img x y w h
          = [FillStyle ''#f0f0f0'', FillRect x y w h, FillStyle ''#ccc'',
             Font ''bold'' (w / 10) ''sans-serif'', TextAlign ''center'',
             FillText (Glyph ''!'') (x + w / 2) (y + h / 2)]"
    by (rule placeholder_when_failed)
next
  assume q: "\<forall>n. \<not> cancelReading e n"
  show "fst (drawAsync e imgs rows ncols w h gp globalOffset startNum maskIdx settings applyMask
               forceHideNums st) = True"
    by (rule drawAsync_quiet(1) [OF q refl refl refl])
  show "drawn (sheet (snd (drawAsync e imgs rows ncols w h gp globalOffset startNum maskIdx
                                 settings applyMask forceHideNums st)))
          = [FillStyle ''#FFFFFF'',
             FillRect 0 0 (real_of_int ncols * w + real_of_int (ncols - 1) * gp)
               (real_of_int rows * h + real_of_int (rows - 1) * gp)]
            @ concat (map (\<lambda>k.
                 cellImageOps (imgs ! k) (fst (acquired e st imgs ! k))
                   (snd (acquired e st imgs ! k)) (cellX ncols w gp k) (cellY ncols h gp k) w h
                 @ numberOps settings forceHideNums (currentNumOf startNum globalOffset k)
                     (cellX ncols w gp k) (cellY ncols h gp k) w h
                 @ maskOps settings applyMask maskIdx
                     (loadOptional (stickerLoaded e) (stickerImgUrl settings))
                     (currentNumOf startNum globalOffset k)
                     (cellX ncols w gp k) (cellY ncols h gp k) w h)
               [0..<length imgs])
            @ overlayOps settings (loadOptional (overlayLoaded e) (overlayImgUrl settings))
                (real_of_int ncols * w + real_of_int (ncols - 1) * gp)
                (real_of_int rows * h + real_of_int (rows - 1) * gp)"
    by (rule drawAsync_sheet [OF q refl refl])
next
  assume qe: "(\<forall>n. \<not> cancelReading e n) \<and> (\<forall>n. isError (loadOutcome e n))"
  then have q: "\<forall>n. \<not> cancelReading e n" and er: "\<forall>n. isError (loadOutcome e n)" by simp_all
  show "attempts (snd (drawAsync e imgs rows ncols w h gp globalOffset startNum maskIdx settings
                         applyMask forceHideNums st)) = attempts st + 3 * length imgs"
    by (rule drawAsync_all_errors [OF q er])
  have cells: "map (\<lambda>k.
                 cellImageOps (imgs ! k) (fst (acquired e st imgs ! k))
                   (snd (acquired e st imgs ! k)) (cellX ncols w gp k) (cellY ncols h gp k) w h
                 @ numberOps settings forceHideNums (currentNumOf startNum globalOffset k)
                     (cellX ncols w gp k) (cellY ncols h gp k) w h
                 @ maskOps settings applyMask maskIdx
                     (loadOptional (stickerLoaded e) (stickerImgUrl settings))
                     (currentNumOf startNum globalOffset k)
                     (cellX ncols w gp k) (cellY ncols h gp k) w h)
               [0..<length imgs]
        = map (\<lambda>k.
                 [FillStyle ''#f0f0f0'', FillRect (cellX ncols w gp k) (cellY ncols h gp k) w h,
                  FillStyle ''#ccc'', Font ''bold'' (w / 10) ''sans-serif'', TextAlign ''center'',
                  FillText (Glyph ''!'') (cellX ncols w gp k + w / 2) (cellY ncols h gp k + h / 2)]
                 @ numberOps settings forceHideNums (currentNumOf startNum globalOffset k)
                     (cellX ncols w gp k) (cellY ncols h gp k) w h
                 @ maskOps settings applyMask maskIdx
                     (loadOptional (stickerLoaded e) (stickerImgUrl settings))
                     (currentNumOf startNum globalOffset k)
                     (cellX ncols w gp k) (cellY ncols h gp k) w h)
               [0..<length imgs]"
  proof (rule map_cong [OF refl])
    fix k assume "k \<in> set [0..<length imgs]"
    then have "k < length imgs" by simp
    then have "fst (acquired e st imgs ! k) = True" by (rule acquired_all_errors [OF er])
    then show "cellImageOps (imgs ! k) (fst (acquired e st imgs ! k))
                   (snd (acquired e st imgs ! k)) (cellX ncols w gp k) (cellY ncols h gp k) w h
                 @ numberOps settings forceHideNums (currentNumOf startNum globalOffset k)
                     (cellX ncols w gp k) (cellY ncols h gp k) w h
                 @ maskOps settings applyMask maskIdx
                     (loadOptional (stickerLoaded e) (stickerImgUrl settings))
                     (currentNumOf startNum globalOffset k)
                     (cellX ncols w gp k) (cellY ncols h gp k) w h
        = [FillStyle ''#f0f0f0'', FillRect (cellX ncols w gp k) (cellY ncols h gp k) w h,
                  FillStyle ''#ccc'', Font ''bold'' (w / 10) ''sans-serif'', TextAlign ''center'',
                  FillText (Glyph ''!'') (cellX ncols w gp k + w / 2) (cellY ncols h gp k + h / 2)]
                 @ numberOps settings forceHideNums (currentNumOf startNum globalOffset k)
                     (cellX ncols w gp k) (cellY ncols h gp k) w h
                 @ maskOps settings applyMask maskIdx
                     (loadOptional (stickerLoaded e) (stickerImgUrl settings))
                     (currentNumOf startNum globalOffset k)
                     (cellX ncols w gp k) (cellY ncols h gp k) w h"
      by (simp add: placeholder_when_failed)
  qed
  show "drawn (sheet (snd (drawAsync e imgs rows ncols w h gp globalOffset startNum maskIdx
                                 settings applyMask forceHideNums st)))
          = [FillStyle ''#FFFFFF'',
             FillRect 0 0 (real_of_int ncols * w + real_of_int (ncols - 1) * gp)
               (real_of_int rows * h + real_of_int (rows - 1) * gp)]
            @ concat (map (\<lambda>k.
                 [FillStyle ''#f0f0f0'', FillRect (cellX ncols w gp k) (cellY ncols h gp k) w h,
                  FillStyle ''#ccc'', Font ''bold'' (w / 10) ''sans-serif'', TextAlign ''center'',
                  FillText (Glyph ''!'') (cellX ncols w gp k + w / 2) (cellY ncols h gp k + h / 2)]
                 @ numberOps settings forceHideNums (currentNumOf startNum globalOffset k)
                     (cellX ncols w gp k) (cellY ncols h gp k) w h
                 @ maskOps settings applyMask maskIdx
                     (loadOptional (stickerLoaded e) (stickerImgUrl settings))
                     (currentNumOf startNum globalOffset k)
                     (cellX ncols w gp k) (cellY ncols h gp k) w h)
               [0..<length imgs])
            @ overlayOps settings (loadOptional (overlayLoaded e) (overlayImgUrl settings))
                (real_of_int ncols * w + real_of_int (ncols - 1) * gp)
                (real_of_int rows * h + real_of_int (rows - 1) * gp)"
    unfolding drawAsync_sheet [OF q refl refl] cells ..
qed

theorem acquisition_retries_witness:
  "(\<forall>n. \<not> cancelReading (quietEnv\<lparr>loadOutcome := (\<lambda>n. OnError failedImage)\<rparr>) n)
   \<and> (\<forall>n. isError (loadOutcome (quietEnv\<lparr>loadOutcome := (\<lambda>n. OnError failedImage)\<rparr>) n))
   \<and> fst (loadImg (quietEnv\<lparr>loadOutcome := (\<lambda>n. OnError failedImage)\<rparr>) ''a.png'' 2 initialState)
       = (True, failedImage)
   \<and> trace (snd (loadImg (quietEnv\<lparr>loadOutcome := (\<lambda>n. OnError failedImage)\<rparr>) ''a.png'' 2 initialState))
       = [AssignSrc ''a.png'', Wait 200, AssignSrc ''a.png'', AssignSrc ''a.png'',
          Wait 200, AssignSrc ''a.png'', AssignSrc ''a.png'']
   \<and> attempts (snd (drawAsync (quietEnv\<lparr>loadOutcome := (\<lambda>n. OnError failedImage)\<rparr>)
         [''a.png'', ''b.png''] 1 3 1500 2000 0 0 1 [] (DEFAULT_SETTINGS\<lparr>showNum := False\<rparr>)
         False False initialState)) = 6
   \<and> drawn (sheet (snd (drawAsync (quietEnv\<lparr>loadOutcome := (\<lambda>n. OnError failedImage)\<rparr>)
         [''a.png'', ''b.png''] 1 3 1500 2000 0 0 1 [] (DEFAULT_SETTINGS\<lparr>showNum := False\<rparr>)
         False False initialState)))
       = [FillStyle ''#FFFFFF'', FillRect 0 0 4500 2000,
          FillStyle ''#f0f0f0'', FillRect 0 0 1500 2000, FillStyle ''#ccc'',
          Font ''bold'' 150 ''sans-serif'', TextAlign ''center'', FillText (Glyph ''!'') 750 1000,
          FillStyle ''#f0f0f0'', FillRect 1500 0 1500 2000, FillStyle ''#ccc'',
          Font ''bold'' 150 ''sans-serif'', TextAlign ''center'', FillText (Glyph ''!'') 2250 1000]"
proof -
  let ?e = "quietEnv\<lparr>loadOutcome := (\<lambda>n. OnError failedImage)\<rparr>"
  let ?s = "DEFAULT_SETTINGS\<lparr>showNum := False\<rparr>"
  have h: "\<forall>n. \<not> cancelReading ?e n" "\<forall>n. isError (loadOutcome ?e n)"
    by (simp_all add: quietEnv_def isError_def)
  note w = acquisition_retries [where e = ?e and src = "''a.png''" and st = initialState
             and imgs = "[''a.png'', ''b.png'']" and rows = 1 and ncols = 3 and w = 1500
             and h = 2000 and gp = 0 and globalOffset = 0 and startNum = 1 and maskIdx = "[]"
             and settings = ?s and applyMask = False and forceHideNums = False
             and isBroken = True and img = failedImage and x = 0 and y = 0]
  have a: "attempts initialState = 0" "trace initialState = []" by (simp_all add: initialState_def)
  have l: "fst (loadImg ?e ''a.png'' 2 initialState) = (True, failedImage)"
    "trace (snd (loadImg ?e ''a.png'' 2 initialState))
       = [AssignSrc ''a.png'', Wait 200, AssignSrc ''a.png'', AssignSrc ''a.png'',
          Wait 200, AssignSrc ''a.png'', AssignSrc ''a.png'']"
    using w [THEN conjunct2, THEN conjunct2, THEN conjunct2, THEN conjunct1]
    by (simp_all add: a isError_def reported_def quietEnv_def)
  have two: "[0..<length [''a.png'', ''b.png'']] = [0, Suc 0]" by (simp add: upt_conv_Cons)
  have d: "attempts (snd (drawAsync ?e [''a.png'', ''b.png''] 1 3 1500 2000 0 0 1 [] ?s
                            False False initialState)) = 6"
    "drawn (sheet (snd (drawAsync ?e [''a.png'', ''b.png''] 1 3 1500 2000 0 0 1 [] ?s
                            False False initialState)))
       = [FillStyle ''#FFFFFF'', FillRect 0 0 4500 2000,
          FillStyle ''#f0f0f0'', FillRect 0 0 1500 2000, FillStyle ''#ccc'',
          Font ''bold'' 150 ''sans-serif'', TextAlign ''center'', FillText (Glyph ''!'') 750 1000,
          FillStyle ''#f0f0f0'', FillRect 1500 0 1500 2000, FillStyle ''#ccc'',
          Font ''bold'' 150 ''sans-serif'', TextAlign ''center'', FillText (Glyph ''!'') 2250 1000]"
    using w [THEN conjunct2, THEN conjunct2, THEN conjunct2, THEN conjunct2, THEN conjunct2,
             THEN conjunct2, THEN mp, OF conjI [OF h]]
    by (simp_all add: a two cellX_def cellY_def numberOps_def maskOps_def overlayOps_def
        loadOptional_def DEFAULT_SETTINGS_def quietEnv_def)
  show ?thesis using h l d by simp
qed

section \<open>The redaction mark\<close>

text \<open>
  The sentence of C6 "also when the mode is sticker but no sticker image is loaded and
  valid" fails on the code: with the sticker mode and a sticker URL whose image did not
  load, the line branch is not taken (\<open>else if (!stickerImgObj)\<close>), and nothing is drawn
  on the targeted cell.  Here the only cell is targeted and the sheet has its image
  only.
\<close>

theorem redaction_counterexample:
  "applyMaskOf (DEFAULT_SETTINGS\<lparr>showNum := False, maskMode := Image,
                                  stickerImgUrl := Some ''s.png''\<rparr>) Apply
   \<and> maskMode (DEFAULT_SETTINGS\<lparr>showNum := False, maskMode := Image,
                                  stickerImgUrl := Some ''s.png''\<rparr>) = Image
   \<and> startNumber (DEFAULT_SETTINGS\<lparr>showNum := False, maskMode := Image,
                                  stickerImgUrl := Some ''s.png''\<rparr>) + 0 + 0 \<in> set [1]
   \<and> \<not> (complete (stickerLoaded quietEnv ''s.png'')
          \<and> 0 < naturalWidth (stickerLoaded quietEnv ''s.png''))
   \<and> drawn (sheet (snd (drawBatch quietEnv
               (DEFAULT_SETTINGS\<lparr>showNum := False, maskMode := Image,
                                  stickerImgUrl := Some ''s.png''\<rparr>)
               Apply [''a.png''] [1] 0 initialState)))
     = [FillStyle ''#FFFFFF'', FillRect 0 0 4500 2000, Save, BeginPath, Rect 0 0 1500 2000, Clip,
        DrawImage ''a.png'' (- (1750 / 3)) 0 (8000 / 3) 2000, Restore]"
proof -
  let ?s = "DEFAULT_SETTINGS\<lparr>showNum := False, maskMode := Image, stickerImgUrl := Some ''s.png''\<rparr>"
  have q: "\<forall>n. \<not> cancelReading quietEnv n" by (simp add: quietEnv_def)
  have c: "cols ?s = Num 3" "aspectRatio ?s = ''0.75''" by (simp_all add: DEFAULT_SETTINGS_def)
  note sz = quiet_cell_sizes [OF c]
  have imgs: "currentImgsOf ?s [''a.png''] 0 = [''a.png'']"
    by (simp add: chunk_eval DEFAULT_SETTINGS_def)
  have one: "[0..<length [''a.png'']] = [0]" by simp
  have acq: "acquired quietEnv initialState [''a.png''] = [(False, loadedImage)]"
    by (simp add: loadImg_two quietEnv_def)
  have "drawn (sheet (snd (drawBatch quietEnv ?s Apply [''a.png''] [1] 0 initialState)))
     = [FillStyle ''#FFFFFF'', FillRect 0 0 4500 2000, Save, BeginPath, Rect 0 0 1500 2000, Clip,
        DrawImage ''a.png'' (- (1750 / 3)) 0 (8000 / 3) 2000, Restore]"
    unfolding drawBatch_sheet [OF q refl refl refl refl refl] imgs sz one acq
    by (simp add: cellX_def cellY_def numberOps_def overlayOps_def loadOptional_def maskOps_def
        drawSettingsOf_def applyMaskOf_def sheetRowsOf_def sz one_row colsOf_def orElse_def DEFAULT_SETTINGS_def
        cellImageOps_def coverOps_def loadedImage_def quietEnv_def failedImage_def)
  then show ?thesis
    by (simp add: applyMaskOf_def DEFAULT_SETTINGS_def quietEnv_def failedImage_def)
qed

text \<open>
  C6, as the code has it.  The sheet of batch \<open>b\<close> of a run, when the drawing is not
  cancelled: on every cell whose global number \<open>startNumber + b * batchSize + k\<close> is in
  the mask set, with redaction active, the diagonal mark is drawn inside the cell's
  rectangle when the mode is line or no sticker URL is set: two diagonals for \<open>cross\<close>,
  one for \<open>slash\<close>, between 0.2 and 0.8 of the cell's sides, stroked in the configured
  colour with line width \<open>maskWidth * (w / 500) * 5\<close> and round caps.  In sticker mode
  with a URL, the sticker is drawn when its image is complete with a positive natural
  width, and nothing otherwise.  Nothing is drawn on a cell that is not targeted.
\<close>

theorem redaction_mark:
  assumes "\<forall>n. \<not> cancelReading e n"
    and "w = cellWOf settings" and "h = cellHOf w (getRatio (parseFloat e) settings)"
    and "imgs = currentImgsOf settings targets b"
    and "cw = real_of_int (colsOf settings) * w + real_of_int (colsOf settings - 1) * gap settings"
    and "ch = real_of_int (sheetRowsOf settings imgs) * h
              + real_of_int (sheetRowsOf settings imgs - 1) * gap settings"
    and "X = cellX (colsOf settings) w (gap settings)"
    and "Y = cellY (colsOf settings) h (gap settings)"
    and "num = (\<lambda>k. startNumber settings + int b * batchSizeOf settings + int k)"
  shows "drawn (sheet (snd (drawBatch e settings opType targets maskIndicesArr b st)))
     = [FillStyle ''#FFFFFF'', FillRect 0 0 cw ch]
       @ concat (map (\<lambda>k.
            cellImageOps (imgs ! k) (fst (acquired e st imgs ! k)) (snd (acquired e st imgs ! k))
              (X k) (Y k) w h
            @ numberOps settings False (num k) (X k) (Y k) w h
            @ (if applyMaskOf settings opType \<and> num k \<in> set maskIndicesArr
               then if maskMode settings = Line \<or> stickerImgUrl settings = None
                       \<or> stickerImgUrl settings = Some []
                    then [BeginPath, StrokeStyle (maskColor settings),
                          LineWidth (maskWidth settings * (w / 500) * 5), LineCap ''round'']
                         @ (if lineStyle settings = Cross
                            then [MoveTo (X k + w * 0.2) (Y k + h * 0.2),
                                  LineTo (X k + w * 0.8) (Y k + h * 0.8),
                                  MoveTo (X k + w * 0.8) (Y k + h * 0.2),
                                  LineTo (X k + w * 0.2) (Y k + h * 0.8)]
                            else [MoveTo (X k + w * 0.2) (Y k + h * 0.8),
                                  LineTo (X k + w * 0.8) (Y k + h * 0.2)])
                         @ [Stroke]
                    else (case stickerImgUrl settings of
                            None \<Rightarrow> []
                          | Some u \<Rightarrow>
                              if complete (stickerLoaded e u) \<and> 0 < naturalWidth (stickerLoaded e u)
                              then stickerOps settings u (stickerLoaded e u) (X k) (Y k) w h
                              else [])
               else []))
          [0..<length imgs])
       @ overlayOps settings (loadOptional (overlayLoaded e) (overlayImgUrl settings)) cw ch"
  unfolding drawBatch_sheet [OF assms(1-6)] maskOps_drawSettings assms(7,8,9) ..

theorem redaction_mark_witness:
  "(\<forall>n. \<not> cancelReading quietEnv n)
   \<and> drawn (sheet (snd (drawBatch quietEnv (DEFAULT_SETTINGS\<lparr>showNum := False\<rparr>) Apply
        [''a.png'', ''b.png''] [2] 0 initialState)))
     = [FillStyle ''#FFFFFF'', FillRect 0 0 4500 2000]
       @ cellImageOps ''a.png'' False loadedImage 0 0 1500 2000
       @ cellImageOps ''b.png'' False loadedImage 1500 0 1500 2000
       @ [BeginPath, StrokeStyle ''#FF3B30'', LineWidth 150, LineCap ''round'',
          MoveTo 1800 400, LineTo 2700 1600, MoveTo 2700 400, LineTo 1800 1600, Stroke]"
proof -
  let ?s = "DEFAULT_SETTINGS\<lparr>showNum := False\<rparr>"
  have q: "\<forall>n. \<not> cancelReading quietEnv n" by (simp add: quietEnv_def)
  have c: "cols ?s = Num 3" "aspectRatio ?s = ''0.75''" by (simp_all add: DEFAULT_SETTINGS_def)
  note sz = quiet_cell_sizes [OF c]
  have imgs: "currentImgsOf ?s [''a.png'', ''b.png''] 0 = [''a.png'', ''b.png'']"
    by (simp add: chunk_eval DEFAULT_SETTINGS_def)
  have two: "[0..<length [''a.png'', ''b.png'']] = [0, Suc 0]" by (simp add: upt_conv_Cons)
  note w = redaction_mark [OF q refl refl refl refl refl refl refl refl,
             where settings = ?s and targets = "[''a.png'', ''b.png'']" and b = 0
               and opType = Apply and maskIndicesArr = "[2]" and st = initialState,
             unfolded imgs sz two acquired_quiet_two]
  have "drawn (sheet (snd (drawBatch quietEnv ?s Apply [''a.png'', ''b.png''] [2] 0 initialState)))
     = [FillStyle ''#FFFFFF'', FillRect 0 0 4500 2000]
       @ cellImageOps ''a.png'' False loadedImage 0 0 1500 2000
       @ cellImageOps ''b.png'' False loadedImage 1500 0 1500 2000
       @ [BeginPath, StrokeStyle ''#FF3B30'', LineWidth 150, LineCap ''round'',
          MoveTo 1800 400, LineTo 2700 1600, MoveTo 2700 400, LineTo 1800 1600, Stroke]"
    unfolding w
    by (simp add: cellX_def cellY_def numberOps_def overlayOps_def loadOptional_def
        applyMaskOf_def sheetRowsOf_def sz one_row colsOf_def orElse_def DEFAULT_SETTINGS_def)
  then show ?thesis using q by simp
qed

end
